theory Spec2Isabelle
  imports Main "HOL-Library.AList" "HOL-Library.Sublist" "HOL-Library.Monad_Syntax"
    "HOL-Library.Char_ord" "HOL-Library.List_Lexorder"
begin

section \<open>Values shared by the embedding\<close>

text \<open>
  The embedding follows \<^verbatim>\<open>combiner2.py\<close>, \<^verbatim>\<open>llm-proxy-recorder/prompt_database.py\<close>
  and \<^verbatim>\<open>llm-proxy-recorder/server/app.py\<close>.
  Python exceptions are values of \<open>error\<close>; a function that can raise returns \<open>error + 'a\<close>
  with \<open>Inl\<close> for the exception. A \<open>datetime\<close> is a number of microseconds on the
  local time line, counted from 1970-01-01T00:00:00, so that a \<open>timedelta\<close> is a
  difference of two of them. Strings are lists of characters with code points up to 255.
  \<open>UnicodeEncodeError\<close> is a \<open>ValueError\<close> for every \<^verbatim>\<open>except\<close> clause.
\<close>

datatype error = ValueError | TypeError | AttributeError | OverflowError | UnicodeEncodeError

type_synonym datetime = int

text \<open>
  Parsed JSON. Numbers are integers; the wire format has neither floats nor booleans.
  An object keeps its keys in insertion order, as a Python \<open>dict\<close> does, and its keys
  are pairwise different (the parser keeps the last of equal keys). A field of a Python
  object that is filled from parsed JSON holds a \<open>json\<close> value, whatever its shape.
\<close>

datatype json =
    JNull
  | JInt int
  | JStr string
  | JList "json list"
  | JDict "(string \<times> json) list"

text \<open>
  Python's \<open>==\<close> on two such values: two dicts are equal when they have the same keys
  with equal values, in whatever order; everything else is compared as it is written.
  \<open>canon\<close> puts the keys of every dict in order.
\<close>

fun canon :: "json \<Rightarrow> json" where
  "canon (JList xs) = JList (map canon xs)"
| "canon (JDict d) = JDict (sort_key fst (map (\<lambda>kv. (fst kv, canon (snd kv))) d))"
| "canon v = v"

definition py_eq :: "json \<Rightarrow> json \<Rightarrow> bool" where
  "py_eq a b = (canon a = canon b)"

text \<open>The contents of a JSON file on disk: absent, not loadable, or loaded.\<close>

datatype json_file = Missing | Unreadable | Content json

text \<open>\<^verbatim>\<open>d.get(key, default)\<close> on a dict.\<close>

definition get :: "(string \<times> json) list \<Rightarrow> string \<Rightarrow> json \<Rightarrow> json" where
  "get d k dflt = (case map_of d k of Some v \<Rightarrow> v | None \<Rightarrow> dflt)"

text \<open>Truth value of a Python object in a condition.\<close>

fun truthy :: "json \<Rightarrow> bool" where
  "truthy JNull = False"
| "truthy (JInt i) = (i \<noteq> 0)"
| "truthy (JStr s) = (s \<noteq> [])"
| "truthy (JList xs) = (xs \<noteq> [])"
| "truthy (JDict d) = (d \<noteq> [])"

text \<open>
  \<^verbatim>\<open>x in y\<close> for a string \<open>x\<close>: substring of a string, element of a list, key of a
  dict; \<open>TypeError\<close> on \<open>None\<close> and on a number.
\<close>

fun py_in :: "string \<Rightarrow> json \<Rightarrow> error + bool" where
  "py_in x (JStr s) = Inr (sublist x s)"
| "py_in x (JList xs) = Inr (JStr x \<in> set xs)"
| "py_in x (JDict d) = Inr (x \<in> set (map fst d))"
| "py_in x JNull = Inl TypeError"
| "py_in x (JInt i) = Inl TypeError"

text \<open>\<^verbatim>\<open>y.append(v)\<close>: only a list has the method.\<close>

fun py_append :: "json \<Rightarrow> json \<Rightarrow> error + json" where
  "py_append (JList xs) v = Inr (JList (xs @ [v]))"
| "py_append y v = Inl AttributeError"

text \<open>\<^verbatim>\<open>y[k] = v\<close> for a string key: only a dict accepts it.\<close>

fun py_setitem :: "json \<Rightarrow> string \<Rightarrow> json \<Rightarrow> error + json" where
  "py_setitem (JDict d) k v = Inr (JDict (AList.update k v d))"
| "py_setitem y k v = Inl TypeError"

text \<open>\<^verbatim>\<open>for p in y\<close>: the elements of a list, the keys of a dict, the characters of a string.\<close>

fun py_iter :: "json \<Rightarrow> error + json list" where
  "py_iter (JList xs) = Inr xs"
| "py_iter (JDict d) = Inr (map (\<lambda>kv. JStr (fst kv)) d)"
| "py_iter (JStr s) = Inr (map (\<lambda>c. JStr [c]) s)"
| "py_iter JNull = Inl TypeError"
| "py_iter (JInt i) = Inl TypeError"

text \<open>\<^verbatim>\<open>str.lower\<close> on the ASCII letters.\<close>

definition lower_char :: "char \<Rightarrow> char" where
  "lower_char c =
     (case map_of (zip ''ABCDEFGHIJKLMNOPQRSTUVWXYZ'' ''abcdefghijklmnopqrstuvwxyz'') c of
        Some l \<Rightarrow> l
      | None \<Rightarrow> c)"

definition lower :: "string \<Rightarrow> string" where
  "lower s = map lower_char s"

fun py_lower :: "json \<Rightarrow> error + json" where
  "py_lower (JStr s) = Inr (JStr (lower s))"
| "py_lower y = Inl AttributeError"

text \<open>
  What the program observes of its surroundings: the files it can read, the MD5 digest, the
  tokenizer, the \<open>datetime\<close> functions of the standard library, \<open>fnmatch\<close>,
  \<open>os.path.basename\<close> and the standard output. \<open>read_bytes p\<close> is
  \<^verbatim>\<open>open(p, "rb").read()\<close> and \<open>read_text p\<close> is
  \<^verbatim>\<open>open(p, "r", encoding="utf-8").read()\<close>; \<open>None\<close> and
  \<open>Inl msg\<close> stand for an exception (\<open>msg\<close> is its text). \<open>tokenize\<close> is
  \<^verbatim>\<open>count_tokens\<close>, \<open>None\<close> when the tokenizer raises. \<open>fromisoformat\<close> and
  \<open>strptime\<close> return \<open>None\<close> for \<open>ValueError\<close>; \<open>fromisoformat\<close> is asked
  only about the texts that \<open>iso_datetime\<close> below does not settle. \<open>py_str\<close> is the
  text an f-string gives for a value that is not a string, \<open>exception_text e v\<close> the text
  of the exception \<open>e\<close> raised while the value \<open>v\<close> was parsed, and \<open>stdout_encodes\<close>
  tells which characters the encoding of the standard output has a code for.
\<close>

record env =
  read_bytes :: "string \<Rightarrow> string option"
  read_text :: "string \<Rightarrow> string + string"
  md5_hexdigest :: "string \<Rightarrow> string"
  tokenize :: "string \<Rightarrow> nat option"
  fromisoformat :: "string \<Rightarrow> datetime option"
  strptime :: "string \<Rightarrow> string \<Rightarrow> datetime option"
  isoformat :: "datetime \<Rightarrow> string"
  fnmatch :: "string \<Rightarrow> string \<Rightarrow> bool"
  basename :: "string \<Rightarrow> string"
  py_str :: "json \<Rightarrow> string"
  exception_text :: "error \<Rightarrow> json \<Rightarrow> string"
  stdout_encodes :: "char \<Rightarrow> bool"

definition fmt :: "env \<Rightarrow> json \<Rightarrow> string" where
  "fmt E v = (case v of JStr s \<Rightarrow> s | _ \<Rightarrow> py_str E v)"

text \<open>
  \<^verbatim>\<open>print(text)\<close>: the text is encoded for the standard output, and a character
  without a code raises \<open>UnicodeEncodeError\<close>.
\<close>

definition py_print :: "env \<Rightarrow> string \<Rightarrow> error + unit" where
  "py_print E text = (if list_all (stdout_encodes E) text then Inr () else Inl UnicodeEncodeError)"

text \<open>\<^verbatim>\<open>count_tokens_in_file\<close>: any exception gives 0.\<close>

definition count_tokens_in_file :: "env \<Rightarrow> string \<Rightarrow> int" where
  "count_tokens_in_file E filepath =
     (case read_text E filepath of
        Inl e \<Rightarrow> 0
      | Inr content \<Rightarrow> (case tokenize E content of None \<Rightarrow> 0 | Some n \<Rightarrow> int n))"

section \<open>Prompt records\<close>

text \<open>
  A \<^verbatim>\<open>PromptRecord\<close> object. The field \<open>id'\<close> is the attribute \<^verbatim>\<open>id\<close>.
\<close>

record PromptRecord =
  id' :: json
  timestamp :: datetime
  prompt_text :: json
  llm_used :: json
  description :: json
  associated_files :: json
  file_changes :: json
  retroactive_notes :: json
  source :: json

text \<open>
  \<^verbatim>\<open>PromptRecord.__init__\<close>; \<open>uuid\<close> is the text of the fresh \<open>uuid4\<close> and \<open>now\<close>
  the reading of the clock.
\<close>

definition PromptRecord_init ::
  "string \<Rightarrow> datetime \<Rightarrow> json \<Rightarrow> json \<Rightarrow> json \<Rightarrow> PromptRecord" where
  "PromptRecord_init uuid now ptext llm descr =
     \<lparr>id' = JStr uuid, timestamp = now, prompt_text = ptext, llm_used = llm,
      description = descr, associated_files = JList [], file_changes = JDict [],
      retroactive_notes = JDict [], source = JStr ''Unknown''\<rparr>"

text \<open>\<^verbatim>\<open>PromptRecord.to_dict\<close>.\<close>

definition to_dict :: "env \<Rightarrow> PromptRecord \<Rightarrow> (string \<times> json) list" where
  "to_dict E r =
     [(''id'', id' r),
      (''timestamp'', JStr (isoformat E (timestamp r))),
      (''prompt_text'', prompt_text r),
      (''llm_used'', llm_used r),
      (''description'', description r),
      (''associated_files'', associated_files r),
      (''file_changes'', file_changes r),
      (''retroactive_notes'', retroactive_notes r)]"

subsection \<open>The library's datetime\<close>

text \<open>
  What \<^verbatim>\<open>datetime.fromisoformat\<close> does with a text of the shape
  \<open>YYYY-MM-DD\<close>, a \<open>T\<close> or a space, \<open>HH:MM:SS\<close> and, optionally, a point and six
  more digits: it reads the fields and calls the constructor \<^verbatim>\<open>datetime(...)\<close>, which
  checks their ranges. The functions follow \<^verbatim>\<open>datetime.py\<close> of the standard library;
  the ordinal of 1970-01-01 is 719163.
\<close>

definition digit_of :: "char \<Rightarrow> int option" where
  "digit_of c = map_of (zip ''0123456789'' [0, 1, 2, 3, 4, 5, 6, 7, 8, 9]) c"

fun parse_digits :: "nat \<Rightarrow> int \<Rightarrow> string \<Rightarrow> (int \<times> string) option" where
  "parse_digits 0 acc s = Some (acc, s)"
| "parse_digits (Suc n) acc [] = None"
| "parse_digits (Suc n) acc (c # s) =
     (case digit_of c of None \<Rightarrow> None | Some v \<Rightarrow> parse_digits n (10 * acc + v) s)"

text \<open>One character out of \<open>cs\<close>.\<close>

definition skip :: "string \<Rightarrow> string \<Rightarrow> string option" where
  "skip cs s = (case s of [] \<Rightarrow> None | c # rest \<Rightarrow> if c \<in> set cs then Some rest else None)"

definition fraction :: "string \<Rightarrow> int option" where
  "fraction s =
     (if s = [] then Some 0
      else do {
        s1 \<leftarrow> skip ''.'' s;
        (us, s2) \<leftarrow> parse_digits 6 0 s1;
        if s2 = [] then Some us else None
      })"

definition iso_fields :: "string \<Rightarrow> (int \<times> int \<times> int \<times> int \<times> int \<times> int \<times> int) option" where
  "iso_fields s0 =
     do {
       (year, s1) \<leftarrow> parse_digits 4 0 s0;
       s2 \<leftarrow> skip ''-'' s1;
       (month, s3) \<leftarrow> parse_digits 2 0 s2;
       s4 \<leftarrow> skip ''-'' s3;
       (day, s5) \<leftarrow> parse_digits 2 0 s4;
       s6 \<leftarrow> skip ''T '' s5;
       (hour, s7) \<leftarrow> parse_digits 2 0 s6;
       s8 \<leftarrow> skip '':'' s7;
       (minute, s9) \<leftarrow> parse_digits 2 0 s8;
       s10 \<leftarrow> skip '':'' s9;
       (second, s11) \<leftarrow> parse_digits 2 0 s10;
       microsecond \<leftarrow> fraction s11;
       Some (year, month, day, hour, minute, second, microsecond)
     }"

definition is_leap :: "int \<Rightarrow> bool" where
  "is_leap year = (year mod 4 = 0 \<and> (year mod 100 \<noteq> 0 \<or> year mod 400 = 0))"

definition days_before_year :: "int \<Rightarrow> int" where
  "days_before_year year =
     (let y = year - 1 in y * 365 + y div 4 - y div 100 + y div 400)"

definition days_in_month :: "int \<Rightarrow> int \<Rightarrow> int" where
  "days_in_month year month =
     (if month = 2 \<and> is_leap year then 29
      else [0, 31, 28, 31, 30, 31, 30, 31, 31, 30, 31, 30, 31] ! nat month)"

definition days_before_month :: "int \<Rightarrow> int \<Rightarrow> int" where
  "days_before_month year month =
     [0, 0, 31, 59, 90, 120, 151, 181, 212, 243, 273, 304, 334] ! nat month
       + (if month > 2 \<and> is_leap year then 1 else 0)"

definition ymd2ord :: "int \<Rightarrow> int \<Rightarrow> int \<Rightarrow> int" where
  "ymd2ord year month day = days_before_year year + days_before_month year month + day"

text \<open>The range checks of the constructor.\<close>

definition check_fields :: "int \<times> int \<times> int \<times> int \<times> int \<times> int \<times> int \<Rightarrow> bool" where
  "check_fields f =
     (case f of (year, month, day, hour, minute, second, microsecond) \<Rightarrow>
        1 \<le> year \<and> year \<le> 9999 \<and> 1 \<le> month \<and> month \<le> 12 \<and>
        1 \<le> day \<and> day \<le> days_in_month year month \<and>
        0 \<le> hour \<and> hour < 24 \<and> 0 \<le> minute \<and> minute < 60 \<and>
        0 \<le> second \<and> second < 60 \<and> 0 \<le> microsecond \<and> microsecond < 1000000)"

text \<open>The point of the time line that the fields name.\<close>

definition datetime_of :: "int \<times> int \<times> int \<times> int \<times> int \<times> int \<times> int \<Rightarrow> datetime" where
  "datetime_of f =
     (case f of (year, month, day, hour, minute, second, microsecond) \<Rightarrow>
        ((ymd2ord year month day - 719163) * 86400
           + (hour * 3600 + minute * 60 + second)) * 1000000
        + microsecond)"

text \<open>
  A text of that shape whose fields pass the checks is a datetime for every version of the
  library; \<open>None\<close> leaves the text to \<open>fromisoformat\<close> of the surroundings.
\<close>

definition iso_datetime :: "string \<Rightarrow> datetime option" where
  "iso_datetime s =
     (case iso_fields s of
        None \<Rightarrow> None
      | Some f \<Rightarrow> if check_fields f then Some (datetime_of f) else None)"

subsection \<open>Parsing the timestamp of a record\<close>

text \<open>
  The timestamp parsing of \<^verbatim>\<open>PromptRecord.from_dict\<close>. First the body of the
  \<^verbatim>\<open>try\<close>: a value with a \<open>T\<close> or a space in it goes to \<open>fromisoformat\<close>,
  anything else through the four \<open>strptime\<close> formats; when none fits, a warning is
  printed and the clock is read.
\<close>

definition py_fromisoformat :: "env \<Rightarrow> json \<Rightarrow> error + datetime" where
  "py_fromisoformat E v =
     (case v of
        JStr s \<Rightarrow>
          (case iso_datetime s of
             Some d \<Rightarrow> Inr d
           | None \<Rightarrow> (case fromisoformat E s of Some d \<Rightarrow> Inr d | None \<Rightarrow> Inl ValueError))
      | _ \<Rightarrow> Inl TypeError)"

definition formats :: "string list" where
  "formats = [''%Y-%m-%d %H:%M:%S'', ''%Y-%m-%d %H:%M:%S.%f'',
              ''%Y-%m-%dT%H:%M:%S'', ''%Y-%m-%dT%H:%M:%S.%f'']"

text \<open>
  The \<^verbatim>\<open>for fmt in formats\<close> loop: \<open>ValueError\<close> moves on to the next format, the
  \<open>TypeError\<close> of a value that is not a string leaves the loop. \<open>None\<close> is the loop
  ending with \<^verbatim>\<open>parsed\<close> still false.
\<close>

fun strptime_loop :: "env \<Rightarrow> json \<Rightarrow> string list \<Rightarrow> error + datetime option" where
  "strptime_loop E v [] = Inr None"
| "strptime_loop E v (f # fs) =
     (case v of
        JStr s \<Rightarrow> (case strptime E s f of Some d \<Rightarrow> Inr (Some d) | None \<Rightarrow> strptime_loop E v fs)
      | _ \<Rightarrow> Inl TypeError)"

definition warning_text :: "env \<Rightarrow> json \<Rightarrow> string" where
  "warning_text E timestamp_str = ''Warning: Could not parse timestamp: '' @ fmt E timestamp_str"

definition other_formats :: "env \<Rightarrow> datetime \<Rightarrow> json \<Rightarrow> error + datetime" where
  "other_formats E now timestamp_str =
     (case strptime_loop E timestamp_str formats of
        Inl e \<Rightarrow> Inl e
      | Inr (Some d) \<Rightarrow> Inr d
      | Inr None \<Rightarrow>
          (case py_print E (warning_text E timestamp_str) of
             Inl e \<Rightarrow> Inl e
           | Inr u \<Rightarrow> Inr now))"

definition timestamp_try :: "env \<Rightarrow> datetime \<Rightarrow> json \<Rightarrow> error + datetime" where
  "timestamp_try E now timestamp_str =
     (case py_in ''T'' timestamp_str of
        Inl e \<Rightarrow> Inl e
      | Inr True \<Rightarrow> py_fromisoformat E timestamp_str
      | Inr False \<Rightarrow>
          (case py_in '' '' timestamp_str of
             Inl e \<Rightarrow> Inl e
           | Inr True \<Rightarrow> py_fromisoformat E timestamp_str
           | Inr False \<Rightarrow> other_formats E now timestamp_str))"

text \<open>
  With the handler \<^verbatim>\<open>except (ValueError, TypeError) as e\<close> around it. The handler
  prints the value and the exception before it reads the clock; what its
  \<^verbatim>\<open>print\<close> raises leaves \<^verbatim>\<open>from_dict\<close>.
\<close>

definition handled :: "error \<Rightarrow> bool" where
  "handled e = (e = ValueError \<or> e = TypeError \<or> e = UnicodeEncodeError)"

definition error_text :: "env \<Rightarrow> error \<Rightarrow> json \<Rightarrow> string" where
  "error_text E e timestamp_str =
     ''Error parsing timestamp '' @ [CHR 0x27] @ fmt E timestamp_str @ [CHR 0x27] @ '': ''
       @ exception_text E e timestamp_str"

definition parse_timestamp :: "env \<Rightarrow> datetime \<Rightarrow> json \<Rightarrow> error + datetime" where
  "parse_timestamp E now timestamp_str =
     (case timestamp_try E now timestamp_str of
        Inr d \<Rightarrow> Inr d
      | Inl e \<Rightarrow>
          (if handled e
           then (case py_print E (error_text E e timestamp_str) of
                   Inl e' \<Rightarrow> Inl e'
                 | Inr u \<Rightarrow> Inr now)
           else Inl e))"

text \<open>
  \<^verbatim>\<open>PromptRecord.from_dict\<close>. Only a dict has \<^verbatim>\<open>get\<close>. \<open>uuid\<close> is the default
  drawn for a missing \<^verbatim>\<open>id\<close>.
\<close>

definition from_dict :: "env \<Rightarrow> string \<Rightarrow> datetime \<Rightarrow> json \<Rightarrow> error + PromptRecord" where
  "from_dict E uuid now data =
     (case data of
        JDict d \<Rightarrow>
          (case parse_timestamp E now (get d ''timestamp'' (JStr [])) of
             Inl e \<Rightarrow> Inl e
           | Inr ts \<Rightarrow>
               Inr \<lparr>id' = get d ''id'' (JStr uuid),
                    timestamp = ts,
                    prompt_text = get d ''prompt_text'' (JStr []),
                    llm_used = get d ''model'' (JStr ''Unknown''),
                    description = get d ''description'' (JStr []),
                    associated_files = get d ''files'' (JList []),
                    file_changes = get d ''file_changes'' (JDict []),
                    retroactive_notes = get d ''retroactive_notes'' (JDict []),
                    source = JStr ''Unknown''\<rparr>)
      | _ \<Rightarrow> Inl AttributeError)"

section \<open>The prompt database\<close>

text \<open>
  A \<^verbatim>\<open>PromptDatabase\<close> object with the part of the world its methods touch.
  \<open>prompts\<close> and \<open>active_prompt\<close> hold references to \<^verbatim>\<open>PromptRecord\<close> objects;
  \<open>heap\<close> gives the object behind a reference and \<open>next_ref\<close> is the next reference
  to hand out. \<open>prompt_database_json\<close> is the file \<^verbatim>\<open>prompt_database.json\<close>.
\<close>

record PromptDatabase =
  heap :: "nat \<Rightarrow> PromptRecord"
  next_ref :: nat
  prompts :: "nat list"
  active_prompt :: "nat option"
  prompt_database_json :: json_file

text \<open>Creating an object.\<close>

definition new_object ::
  "PromptRecord \<Rightarrow> 'a PromptDatabase_scheme \<Rightarrow> nat \<times> 'a PromptDatabase_scheme" where
  "new_object r s =
     (next_ref s, s\<lparr>heap := (heap s)(next_ref s := r), next_ref := Suc (next_ref s)\<rparr>)"

fun new_objects ::
  "PromptRecord list \<Rightarrow> 'a PromptDatabase_scheme \<Rightarrow> nat list \<times> 'a PromptDatabase_scheme" where
  "new_objects [] s = ([], s)"
| "new_objects (r # rs) s =
     (case new_object r s of
        (ref, s') \<Rightarrow> (case new_objects rs s' of (refs, s'') \<Rightarrow> (ref # refs, s'')))"

text \<open>
  \<^verbatim>\<open>PromptDatabase.save\<close>: the file becomes the list of the \<^verbatim>\<open>to_dict\<close> of
  every prompt. A failure of the write itself is not modelled.
\<close>

definition save :: "env \<Rightarrow> 'a PromptDatabase_scheme \<Rightarrow> 'a PromptDatabase_scheme" where
  "save E s =
     s\<lparr>prompt_database_json :=
         Content (JList (map (\<lambda>ref. JDict (to_dict E (heap s ref))) (prompts s)))\<rparr>"

text \<open>\<^verbatim>\<open>PromptDatabase.add_prompt\<close>; it returns its argument.\<close>

definition add_prompt ::
  "env \<Rightarrow> 'a PromptDatabase_scheme \<Rightarrow> nat \<Rightarrow> 'a PromptDatabase_scheme" where
  "add_prompt E s prompt_record =
     save E (s\<lparr>prompts := prompts s @ [prompt_record], active_prompt := Some prompt_record\<rparr>)"

text \<open>
  \<^verbatim>\<open>PromptDatabase.associate_file_with_active_prompt\<close>. The state is returned with
  the result, also when an attribute of the wrong shape makes a statement raise after an
  earlier one has changed the record.
\<close>

definition associate_file_with_active_prompt ::
  "env \<Rightarrow> 'a PromptDatabase_scheme \<Rightarrow> string \<Rightarrow> int
     \<Rightarrow> 'a PromptDatabase_scheme \<times> (error + bool)" where
  "associate_file_with_active_prompt E s file_path token_change =
     (case active_prompt s of
        None \<Rightarrow> (s, Inr False)
      | Some a \<Rightarrow>
          (case py_in file_path (associated_files (heap s a)) of
             Inl e \<Rightarrow> (s, Inl e)
           | Inr True \<Rightarrow> (s, Inr False)
           | Inr False \<Rightarrow>
               (case py_append (associated_files (heap s a)) (JStr file_path) of
                  Inl e \<Rightarrow> (s, Inl e)
                | Inr files \<Rightarrow>
                    (let s1 = s\<lparr>heap := (heap s)(a := (heap s a)\<lparr>associated_files := files\<rparr>)\<rparr>
                     in case py_setitem (file_changes (heap s1 a)) file_path (JInt token_change) of
                          Inl e \<Rightarrow> (s1, Inl e)
                        | Inr changes \<Rightarrow>
                            (save E (s1\<lparr>heap :=
                                (heap s1)(a := (heap s1 a)\<lparr>file_changes := changes\<rparr>)\<rparr>),
                             Inr True)))))"

text \<open>\<^verbatim>\<open>PromptDatabase.clear_active_prompt\<close>.\<close>

definition clear_active_prompt :: "'a PromptDatabase_scheme \<Rightarrow> 'a PromptDatabase_scheme" where
  "clear_active_prompt s = s\<lparr>active_prompt := None\<rparr>"

subsection \<open>Loading\<close>

text \<open>
  The list comprehension over the standard database file: \<open>uuid4 i\<close> is the default
  id drawn for the \<open>i\<close>-th entry. An exception in any entry ends the comprehension.
  The objects are created once all entries are converted; the ones Python creates before
  an exception are never referred to.
\<close>

fun from_dict_all ::
  "env \<Rightarrow> (nat \<Rightarrow> string) \<Rightarrow> datetime \<Rightarrow> nat \<Rightarrow> json list \<Rightarrow> error + PromptRecord list" where
  "from_dict_all E uuid4 now i [] = Inr []"
| "from_dict_all E uuid4 now i (p # ps) =
     (case from_dict E (uuid4 i) now p of
        Inl e \<Rightarrow> Inl e
      | Inr r \<Rightarrow>
          (case from_dict_all E uuid4 now (Suc i) ps of
             Inl e \<Rightarrow> Inl e
           | Inr rs \<Rightarrow> Inr (r # rs)))"

text \<open>
  First half of \<^verbatim>\<open>PromptDatabase.load\<close>, with the flag \<^verbatim>\<open>prompts_loaded\<close>.
  \<open>self.prompts\<close> is assigned only when the whole file has been converted.
\<close>

definition load_standard ::
  "env \<Rightarrow> (nat \<Rightarrow> string) \<Rightarrow> datetime \<Rightarrow> 'a PromptDatabase_scheme
     \<Rightarrow> 'a PromptDatabase_scheme \<times> bool" where
  "load_standard E uuid4 now s =
     (case prompt_database_json s of
        Missing \<Rightarrow> (s, False)
      | Unreadable \<Rightarrow> (s, False)
      | Content data \<Rightarrow>
          (case py_iter data of
             Inl e \<Rightarrow> (s, False)
           | Inr ps \<Rightarrow>
               (case from_dict_all E uuid4 now 0 ps of
                  Inl e \<Rightarrow> (s, False)
                | Inr records \<Rightarrow>
                    (case new_objects records s of
                       (refs, s') \<Rightarrow> (s'\<lparr>prompts := refs\<rparr>, True)))))"

text \<open>
  The record made from one entry of \<^verbatim>\<open>claude_prompts.json\<close>: the entry's \<^verbatim>\<open>id\<close>
  (\<open>None\<close> when it has none), the clock as timestamp, and a copy of \<^verbatim>\<open>files\<close> when
  that is a list.
\<close>

definition claude_record :: "datetime \<Rightarrow> (string \<times> json) list \<Rightarrow> PromptRecord" where
  "claude_record now p =
     (let record = PromptRecord_init [] now
                     (get p ''prompt_text'' (JStr []))
                     (get p ''model'' (JStr ''Claude Desktop''))
                     (get p ''description'' (JStr []));
          record = record\<lparr>id' := get p ''id'' JNull\<rparr>
      in case map_of p ''files'' of
           Some (JList fs) \<Rightarrow> record\<lparr>associated_files := JList fs\<rparr>
         | _ \<Rightarrow> record)"

text \<open>
  The loop over \<^verbatim>\<open>claude_data\<close>. An entry whose id some prompt already carries is
  skipped. An entry that is not a dict raises and ends the loop; the flag tells whether the
  loop ran to its end.
\<close>

fun load_claude ::
  "datetime \<Rightarrow> json list \<Rightarrow> 'a PromptDatabase_scheme \<Rightarrow> 'a PromptDatabase_scheme \<times> bool" where
  "load_claude now [] s = (s, True)"
| "load_claude now (JDict p # rest) s =
     (if list_ex (\<lambda>existing. py_eq (id' (heap s existing)) (get p ''id'' JNull)) (prompts s)
      then load_claude now rest s
      else (case new_object (claude_record now p) s of
              (record, s') \<Rightarrow> load_claude now rest (s'\<lparr>prompts := prompts s' @ [record]\<rparr>)))"
| "load_claude now (p # rest) s = (s, False)"

text \<open>
  \<^verbatim>\<open>PromptDatabase.load\<close>. \<open>claude_prompts_json\<close> is the file
  \<^verbatim>\<open>claude_prompts.json\<close>; \<open>now\<close> is the reading of the clock during the call.
\<close>

definition load ::
  "env \<Rightarrow> (nat \<Rightarrow> string) \<Rightarrow> datetime \<Rightarrow> json_file \<Rightarrow> 'a PromptDatabase_scheme
     \<Rightarrow> 'a PromptDatabase_scheme \<times> bool" where
  "load E uuid4 now claude_prompts_json s =
     (case load_standard E uuid4 now s of
        (s1, prompts_loaded) \<Rightarrow>
          (case claude_prompts_json of
             Missing \<Rightarrow> (s1, prompts_loaded)
           | Unreadable \<Rightarrow> (s1, prompts_loaded)
           | Content claude_data \<Rightarrow>
               (case py_iter claude_data of
                  Inl e \<Rightarrow> (s1, prompts_loaded)
                | Inr ps \<Rightarrow>
                    (case load_claude now ps s1 of
                       (s2, finished) \<Rightarrow> (s2, prompts_loaded \<or> finished)))))"

subsection \<open>The prompts as values\<close>

text \<open>
  The records behind \<open>prompts\<close> in order, and their ids, each with the keys of its
  dicts in order, so that two ids are the same entry of the list exactly when \<open>==\<close>
  holds of them. \<open>allocated\<close> says that every reference in \<open>prompts\<close> has been
  handed out, so that a new object is a different one. \<open>untimed\<close> is a record without
  its reading of the clock.
\<close>

definition records :: "'a PromptDatabase_scheme \<Rightarrow> PromptRecord list" where
  "records s = map (heap s) (prompts s)"

definition ids :: "'a PromptDatabase_scheme \<Rightarrow> json list" where
  "ids s = map (\<lambda>r. canon (id' r)) (records s)"

definition untimed :: "PromptRecord \<Rightarrow> PromptRecord" where
  "untimed r = r\<lparr>timestamp := 0\<rparr>"

text \<open>Two records that differ at most in the timestamp and the id.\<close>

definition same_entry :: "PromptRecord \<Rightarrow> PromptRecord \<Rightarrow> bool" where
  "same_entry r r' = (r' = r\<lparr>timestamp := timestamp r', id' := id' r'\<rparr>)"

text \<open>
  The loop over \<^verbatim>\<open>claude_data\<close> and the two files, on the records themselves.
\<close>

fun merge_claude :: "datetime \<Rightarrow> json list \<Rightarrow> PromptRecord list \<Rightarrow> PromptRecord list \<times> bool" where
  "merge_claude now [] rs = (rs, True)"
| "merge_claude now (JDict p # rest) rs =
     (if list_ex (\<lambda>existing. py_eq (id' existing) (get p ''id'' JNull)) rs
      then merge_claude now rest rs
      else merge_claude now rest (rs @ [claude_record now p]))"
| "merge_claude now (p # rest) rs = (rs, False)"

definition standard_records ::
  "env \<Rightarrow> (nat \<Rightarrow> string) \<Rightarrow> datetime \<Rightarrow> json_file \<Rightarrow> PromptRecord list option" where
  "standard_records E uuid4 now file =
     (case file of
        Content data \<Rightarrow>
          (case py_iter data of
             Inl e \<Rightarrow> None
           | Inr ps \<Rightarrow> (case from_dict_all E uuid4 now 0 ps of Inl e \<Rightarrow> None | Inr rs \<Rightarrow> Some rs))
      | _ \<Rightarrow> None)"

definition claude_entries :: "json_file \<Rightarrow> json list" where
  "claude_entries file =
     (case file of
        Content data \<Rightarrow> (case py_iter data of Inl e \<Rightarrow> [] | Inr ps \<Rightarrow> ps)
      | _ \<Rightarrow> [])"

definition allocated :: "'a PromptDatabase_scheme \<Rightarrow> bool" where
  "allocated s = list_all (\<lambda>ref. ref < next_ref s) (prompts s)"

text \<open>The ids that a run of the loop looks for before it ends.\<close>

fun seen_ids :: "json list \<Rightarrow> json list" where
  "seen_ids [] = []"
| "seen_ids (JDict p # rest) = canon (get p ''id'' JNull) # seen_ids rest"
| "seen_ids (p # rest) = []"

section \<open>Auto-backup configuration and the file change handler\<close>

record AutoBackupConfig =
  enabled :: bool
  monitor_folders :: "string list"
  monitor_files :: "string list"
  ignored_patterns :: "string list"
  min_token_change :: int
  cooldown_minutes :: int
  max_backups :: int
  notification_enabled :: bool
  last_backup_time :: "datetime option"
  file_hashes :: "string \<rightharpoonup> (string \<times> int)"

text \<open>\<^verbatim>\<open>AutoBackupConfig.__init__\<close>.\<close>

definition AutoBackupConfig_init :: AutoBackupConfig where
  "AutoBackupConfig_init =
     \<lparr>enabled = False, monitor_folders = [], monitor_files = [],
      ignored_patterns = [''*.tmp'', ''*.bak'', ''*~''],
      min_token_change = 50, cooldown_minutes = 5, max_backups = 10,
      notification_enabled = True, last_backup_time = None, file_hashes = Map.empty\<rparr>"

text \<open>
  The application as the handler sees it: the prompt database, the configuration (one
  object, shared by the application and the handler), the handler's set
  \<^verbatim>\<open>pending_changes\<close> listed in the order a \<^verbatim>\<open>for\<close> visits it, the attribute
  \<^verbatim>\<open>_processing_scheduled\<close> (\<open>None\<close> while it does not exist), the number of
  calls of \<^verbatim>\<open>_process_changes\<close> handed to the event loop, and the arguments of
  every call of \<^verbatim>\<open>trigger_auto_backup_with_prompts\<close>, that is, of every snapshot.
\<close>

record App = PromptDatabase +
  config :: AutoBackupConfig
  pending_changes :: "string list"
  processing_scheduled :: "bool option"
  scheduled_calls :: nat
  backups :: "(string \<times> int) list list"





text \<open>
  One round of the loop of \<^verbatim>\<open>_check_for_significant_changes\<close> for one path:
  the entries it appends to \<open>significant_changes\<close>, and the configuration afterwards.
  A file that cannot be opened raises inside the \<^verbatim>\<open>try\<close>; the handler logs and
  goes on with the next path.
\<close>

definition check_file ::
  "env \<Rightarrow> AutoBackupConfig \<Rightarrow> string \<Rightarrow> (string \<times> int) list \<times> AutoBackupConfig" where
  "check_file E c file_path =
     (case read_bytes E file_path of
        None \<Rightarrow> ([], c)
      | Some content \<Rightarrow>
          (let current_hash = md5_hexdigest E content;
               current_tokens = count_tokens_in_file E file_path;
               found =
                 (case file_hashes c file_path of
                    Some (prev_hash, prev_tokens) \<Rightarrow>
                      (if current_hash \<noteq> prev_hash then
                         (let token_change = \<bar>current_tokens - prev_tokens\<bar> in
                          if token_change \<ge> min_token_change c
                          then [(file_path, token_change)] else [])
                       else [])
                  | None \<Rightarrow> [(file_path, current_tokens)])
           in (found,
               c\<lparr>file_hashes :=
                 (file_hashes c)(file_path \<mapsto> (current_hash, current_tokens))\<rparr>)))"

fun check_loop ::
  "env \<Rightarrow> string list \<Rightarrow> (string \<times> int) list \<Rightarrow> AutoBackupConfig
     \<Rightarrow> (string \<times> int) list \<times> AutoBackupConfig" where
  "check_loop E [] significant_changes c = (significant_changes, c)"
| "check_loop E (file_path # rest) significant_changes c =
     (case check_file E c file_path of
        (found, c') \<Rightarrow> check_loop E rest (significant_changes @ found) c')"

text \<open>\<^verbatim>\<open>_check_for_significant_changes\<close> over the pending paths.\<close>

definition check_for_significant_changes ::
  "env \<Rightarrow> AutoBackupConfig \<Rightarrow> string list \<Rightarrow> (string \<times> int) list \<times> AutoBackupConfig" where
  "check_for_significant_changes E c pending = check_loop E pending [] c"

text \<open>
  The loop of \<^verbatim>\<open>_process_changes\<close> that associates every pending path with the
  active prompt. An exception of a call is caught and logged, and the loop goes on.
\<close>

fun associate_pending :: "env \<Rightarrow> string list \<Rightarrow> App \<Rightarrow> App" where
  "associate_pending E [] s = s"
| "associate_pending E (file_path # rest) s =
     associate_pending E rest
       (fst (associate_file_with_active_prompt E s file_path (count_tokens_in_file E file_path)))"

text \<open>
  The loop of \<^verbatim>\<open>trigger_auto_backup_with_prompts\<close> over the changed files, for the
  active prompt \<open>a\<close>; an exception leaves the loop and the method.
\<close>

fun associate_changed :: "nat \<Rightarrow> (string \<times> int) list \<Rightarrow> App \<Rightarrow> App \<times> error option" where
  "associate_changed a [] s = (s, None)"
| "associate_changed a ((file_path, token_change) # rest) s =
     (case py_in file_path (associated_files (heap s a)) of
        Inl e \<Rightarrow> (s, Some e)
      | Inr True \<Rightarrow> associate_changed a rest s
      | Inr False \<Rightarrow>
          (case py_append (associated_files (heap s a)) (JStr file_path) of
             Inl e \<Rightarrow> (s, Some e)
           | Inr files \<Rightarrow>
               (let s1 = s\<lparr>heap := (heap s)(a := (heap s a)\<lparr>associated_files := files\<rparr>)\<rparr>
                in case py_setitem (file_changes (heap s1 a)) file_path (JInt token_change) of
                     Inl e \<Rightarrow> (s1, Some e)
                   | Inr changes \<Rightarrow>
                       associate_changed a rest
                         (s1\<lparr>heap := (heap s1)(a := (heap s1 a)\<lparr>file_changes := changes\<rparr>)\<rparr>))))"

text \<open>
  \<^verbatim>\<open>trigger_auto_backup_with_prompts\<close>, as far as it touches the state above: the
  time of the last backup, the association of the changed files with the active prompt,
  and the snapshot itself, which is recorded in \<open>backups\<close>. Building and writing the
  backup file and updating the window are not modelled.
\<close>

definition trigger_auto_backup_with_prompts ::
  "env \<Rightarrow> datetime \<Rightarrow> App \<Rightarrow> (string \<times> int) list \<Rightarrow> App \<times> error option" where
  "trigger_auto_backup_with_prompts E now s changed_files =
     (let s1 = s\<lparr>config := (config s)\<lparr>last_backup_time := Some now\<rparr>\<rparr>
      in case active_prompt s1 of
           None \<Rightarrow> (s1\<lparr>backups := backups s1 @ [changed_files]\<rparr>, None)
         | Some a \<Rightarrow>
             (case associate_changed a changed_files s1 of
                (s2, Some e) \<Rightarrow> (s2, Some e)
              | (s2, None) \<Rightarrow>
                  (let s3 = save E s2 in (s3\<lparr>backups := backups s3 @ [changed_files]\<rparr>, None))))"

text \<open>
  \<^verbatim>\<open>timedelta(minutes=m)\<close> in microseconds: the constructor raises \<open>OverflowError\<close>
  when the number of days leaves the range of \<open>\<plusminus>999999999\<close>.
\<close>

definition timedelta_minutes :: "int \<Rightarrow> error + int" where
  "timedelta_minutes m =
     (if - 999999999 \<le> m div 1440 \<and> m div 1440 \<le> 999999999
      then Inr (m * 60000000) else Inl OverflowError)"

text \<open>
  The cooldown test of \<^verbatim>\<open>_process_changes\<close>: a last backup exists and less than
  \<open>cooldown_minutes\<close> have passed since. Without a last backup no \<open>timedelta\<close> is
  built.
\<close>

definition cooldown_active :: "AutoBackupConfig \<Rightarrow> datetime \<Rightarrow> error + bool" where
  "cooldown_active c now =
     (case last_backup_time c of
        None \<Rightarrow> Inr False
      | Some last_backup \<Rightarrow>
          (case timedelta_minutes (cooldown_minutes c) of
             Inl e \<Rightarrow> Inl e
           | Inr cooldown \<Rightarrow> Inr (now - last_backup < cooldown)))"

text \<open>
  \<^verbatim>\<open>_process_changes\<close>; \<open>now\<close> is the reading of the clock. An exception of the
  cooldown test, or one that leaves \<^verbatim>\<open>trigger_auto_backup_with_prompts\<close>, leaves this
  method too, before the pending set is cleared. Writing to the log window is not modelled.
\<close>

definition process_changes :: "env \<Rightarrow> datetime \<Rightarrow> App \<Rightarrow> App \<times> error option" where
  "process_changes E now s0 =
     (let s = s0\<lparr>processing_scheduled := Some False\<rparr>
      in if pending_changes s = [] then (s, None)
         else
           (case cooldown_active (config s) now of
              Inl e \<Rightarrow> (s, Some e)
            | Inr True \<Rightarrow> (s, None)
            | Inr False \<Rightarrow>
                (let s1 = (if active_prompt s \<noteq> None
                           then associate_pending E (pending_changes s) s else s);
                     (significant_changes, c) =
                        check_for_significant_changes E (config s1) (pending_changes s1);
                     s2 = s1\<lparr>config := c\<rparr>
                 in if significant_changes \<noteq> []
                    then (case trigger_auto_backup_with_prompts E now s2 significant_changes of
                            (s3, Some e) \<Rightarrow> (s3, Some e)
                          | (s3, None) \<Rightarrow> (s3\<lparr>pending_changes := []\<rparr>, None))
                    else (s2\<lparr>pending_changes := []\<rparr>, None))))"



section \<open>Source shown in the prompt history\<close>

text \<open>
  Conditions that can raise, combined as \<^verbatim>\<open>if\<close>/\<^verbatim>\<open>elif\<close>, \<^verbatim>\<open>and\<close>,
  \<^verbatim>\<open>or\<close> and \<^verbatim>\<open>any\<close> evaluate them: left to right, stopping early.
\<close>

definition cond :: "error + bool \<Rightarrow> error + 'a \<Rightarrow> error + 'a \<Rightarrow> error + 'a" where
  "cond c a b = (case c of Inl e \<Rightarrow> Inl e | Inr True \<Rightarrow> a | Inr False \<Rightarrow> b)"

definition and_then :: "error + bool \<Rightarrow> error + bool \<Rightarrow> error + bool" where
  "and_then a b = cond a b (Inr False)"

definition or_else :: "error + bool \<Rightarrow> error + bool \<Rightarrow> error + bool" where
  "or_else a b = cond a (Inr True) b"

text \<open>\<^verbatim>\<open>any(ind in d.lower() for ind in indicators)\<close>.\<close>

fun any_in_lower :: "string list \<Rightarrow> json \<Rightarrow> error + bool" where
  "any_in_lower [] d = Inr False"
| "any_in_lower (ind # inds) d =
     (case py_lower d of
        Inl e \<Rightarrow> Inl e
      | Inr l \<Rightarrow> or_else (py_in ind l) (any_in_lower inds d))"

text \<open>
  The source that \<^verbatim>\<open>App.refresh_prompt_history\<close> works out for one prompt from its
  description and its \<^verbatim>\<open>llm_used\<close>.
\<close>

definition history_source :: "json \<Rightarrow> json \<Rightarrow> error + string" where
  "history_source descr llm =
     cond (py_in ''Auto-recorded from Claude Desktop'' descr) (Inr ''Claude Desktop'')
    (cond (and_then (Inr (truthy descr)) (py_in ''Claude Desktop'' descr)) (Inr ''Claude Desktop'')
    (cond (and_then (Inr (llm = JStr ''Claude''))
             (or_else (py_in ''via'' descr)
                (case py_lower descr of Inl e \<Rightarrow> Inl e | Inr l \<Rightarrow> py_in ''proxy'' l)))
       (Inr ''Web Browser'')
    (cond (py_in ''ChatGPT'' llm) (Inr ''Web Browser'')
    (if llm = JStr ''Claude'' then
       cond (any_in_lower [''mcp'', ''auto-recorded'', ''claude desktop''] descr)
         (Inr ''Claude Desktop'')
      (cond (any_in_lower [''web'', ''proxy'', ''browser'', ''captured'', ''via'', ''claude.ai''] descr)
         (Inr ''Web Browser'')
         (Inr ''Claude Desktop''))
     else Inr ''Web Browser''))))"

text \<open>
  An ordered rule list: the label of the first rule whose test holds of the description and
  the model name.
\<close>

fun first_match :: "((string \<Rightarrow> string \<Rightarrow> bool) \<times> string) list \<Rightarrow> string \<Rightarrow> string \<Rightarrow> string" where
  "first_match [] d l = ''Unknown''"
| "first_match ((test, label) # rules) d l = (if test d l then label else first_match rules d l)"

definition contains_ci :: "string \<Rightarrow> string \<Rightarrow> bool" where
  "contains_ci needle s = sublist (lower needle) (lower s)"

text \<open>
  The decision list as the specification words it: eight rules, every substring test
  without regard to case, the comparisons with \<open>Claude\<close> exact.
\<close>

definition spec_rules :: "((string \<Rightarrow> string \<Rightarrow> bool) \<times> string) list" where
  "spec_rules =
     [(\<lambda>d l. contains_ci ''Auto-recorded from Claude Desktop'' d, ''Claude Desktop''),
      (\<lambda>d l. contains_ci ''Claude Desktop'' d, ''Claude Desktop''),
      (\<lambda>d l. l = ''Claude'' \<and> (contains_ci ''via'' d \<or> contains_ci ''proxy'' d), ''Web Browser''),
      (\<lambda>d l. contains_ci ''ChatGPT'' l, ''Web Browser''),
      (\<lambda>d l. l = ''Claude'' \<and>
          list_ex (\<lambda>i. contains_ci i d) [''mcp'', ''auto-recorded'', ''claude desktop''],
       ''Claude Desktop''),
      (\<lambda>d l. l = ''Claude'' \<and>
          list_ex (\<lambda>i. contains_ci i d)
            [''web'', ''proxy'', ''browser'', ''captured'', ''via'', ''claude.ai''],
       ''Web Browser''),
      (\<lambda>d l. l = ''Claude'', ''Claude Desktop''),
      (\<lambda>d l. True, ''Web Browser'')]"

text \<open>
  The same list with the tests the code makes: rules 1, 2 and 4 and the \<open>via\<close> of rule 3
  look for the text as written, the \<open>proxy\<close> of rule 3 and rules 5 and 6 look in the
  lowercased description.
\<close>

definition code_rules :: "((string \<Rightarrow> string \<Rightarrow> bool) \<times> string) list" where
  "code_rules =
     [(\<lambda>d l. sublist ''Auto-recorded from Claude Desktop'' d, ''Claude Desktop''),
      (\<lambda>d l. sublist ''Claude Desktop'' d, ''Claude Desktop''),
      (\<lambda>d l. l = ''Claude'' \<and> (sublist ''via'' d \<or> sublist ''proxy'' (lower d)), ''Web Browser''),
      (\<lambda>d l. sublist ''ChatGPT'' l, ''Web Browser''),
      (\<lambda>d l. l = ''Claude'' \<and>
          list_ex (\<lambda>i. sublist i (lower d)) [''mcp'', ''auto-recorded'', ''claude desktop''],
       ''Claude Desktop''),
      (\<lambda>d l. l = ''Claude'' \<and>
          list_ex (\<lambda>i. sublist i (lower d))
            [''web'', ''proxy'', ''browser'', ''captured'', ''via'', ''claude.ai''],
       ''Web Browser''),
      (\<lambda>d l. l = ''Claude'', ''Claude Desktop''),
      (\<lambda>d l. True, ''Web Browser'')]"

section \<open>Snapshot text\<close>

text \<open>\<^verbatim>\<open>"\n".join(lines)\<close>.\<close>

fun join_lines :: "string list \<Rightarrow> string" where
  "join_lines [] = []"
| "join_lines [l] = l"
| "join_lines (l # ls) = l @ ''\<newline>'' @ join_lines ls"

text \<open>
  \<^verbatim>\<open>build_combined_text\<close>. A file that cannot be read contributes the text of the
  exception.
\<close>

definition file_section :: "env \<Rightarrow> string \<Rightarrow> string list" where
  "file_section E file_path =
     [''### '' @ file_path, [],
      (case read_text E file_path of
         Inr content \<Rightarrow> content
       | Inl e \<Rightarrow> ''Error reading file: '' @ e),
      []]"

definition build_combined_text :: "env \<Rightarrow> string list \<Rightarrow> string \<Rightarrow> string \<Rightarrow> string" where
  "build_combined_text E selected_files header footer =
     join_lines
       ((if header \<noteq> [] then [header, []] else [])
        @ concat (map (file_section E) selected_files)
        @ (if footer \<noteq> [] then [footer] else []))"

text \<open>
  \<^verbatim>\<open>re.split(r'^### (.+?)$', content, flags=re.MULTILINE)\<close>. A match is a whole line
  that starts with \<open>### \<close> and has at least one more character; the split returns the
  text before the first match and then, for every match, the rest of its line and the
  text up to the next match. \<open>split_nl\<close> cuts a text at its newlines.
\<close>

fun split_nl :: "string \<Rightarrow> string list" where
  "split_nl [] = [[]]"
| "split_nl (c # cs) =
     (if c = CHR 0x0A then [] # split_nl cs
      else (case split_nl cs of l # ls \<Rightarrow> (c # l) # ls | [] \<Rightarrow> [[c]]))"

definition is_header :: "string \<Rightarrow> bool" where
  "is_header l = (prefix ''### '' l \<and> length l > 4)"

fun split_rest :: "string \<Rightarrow> string list \<Rightarrow> string list" where
  "split_rest block [] = [block]"
| "split_rest block (l # ls) =
     (if is_header l then (block @ ''\<newline>'') # drop 4 l # split_rest [] ls
      else split_rest (block @ ''\<newline>'' @ l) ls)"

definition re_split :: "string \<Rightarrow> string list" where
  "re_split content =
     (case split_nl content of
        [] \<Rightarrow> [[]]
      | l # ls \<Rightarrow> (if is_header l then [] # drop 4 l # split_rest [] ls else split_rest l ls))"

text \<open>\<^verbatim>\<open>str.strip()\<close> and \<^verbatim>\<open>str.lstrip('\n')\<close>.\<close>

definition py_isspace :: "char \<Rightarrow> bool" where
  "py_isspace c = ((of_char c :: nat) \<in> {9, 10, 11, 12, 13, 28, 29, 30, 31, 32, 133, 160})"

definition strip :: "string \<Rightarrow> string" where
  "strip s = rev (dropWhile py_isspace (rev (dropWhile py_isspace s)))"

definition lstrip_nl :: "string \<Rightarrow> string" where
  "lstrip_nl s = dropWhile (\<lambda>c. c = CHR 0x0A) s"

text \<open>
  The loop of \<^verbatim>\<open>parse_combined_file\<close> over \<open>file_blocks[1:]\<close>, two blocks at a
  time, filling \<open>files_dict\<close>.
\<close>

fun fill_files_dict :: "string list \<Rightarrow> (string \<times> string) list \<Rightarrow> (string \<times> string) list" where
  "fill_files_dict (path # block # rest) files_dict =
     fill_files_dict rest (AList.update (strip path) (lstrip_nl block) files_dict)"
| "fill_files_dict rest files_dict = files_dict"

definition parse_combined_text :: "string \<Rightarrow> (string \<times> string) list" where
  "parse_combined_text content = fill_files_dict (tl (re_split content)) []"

text \<open>\<^verbatim>\<open>parse_combined_file\<close>: any exception gives the empty dict.\<close>

definition parse_combined_file :: "env \<Rightarrow> string \<Rightarrow> (string \<times> string) list" where
  "parse_combined_file E filepath =
     (case read_text E filepath of
        Inl e \<Rightarrow> []
      | Inr content \<Rightarrow> parse_combined_text content)"

section \<open>The other writers of the JSON store\<close>

text \<open>
  \<^verbatim>\<open>PromptDatabase._add_to_json_db\<close> of \<^verbatim>\<open>prompt_database.py\<close>: the object it
  appends, and its effect on the file \<^verbatim>\<open>claude_prompts.json\<close>. Any exception
  leaves the file as it was and returns \<open>False\<close>.
\<close>

definition new_prompt ::
  "env \<Rightarrow> json \<Rightarrow> json \<Rightarrow> json \<Rightarrow> json \<Rightarrow> json \<Rightarrow> json \<Rightarrow> json \<Rightarrow> (string \<times> json) list" where
  "new_prompt E prompt_id ts ptext llm_name descr files src =
     [(''id'', prompt_id),
      (''timestamp'', ts),
      (''prompt_text'', ptext),
      (''description'', if truthy descr then descr else JStr (''Prompt from '' @ fmt E llm_name)),
      (''model'', llm_name),
      (''files'', files),
      (''source'', src)]"

definition add_to_json_db ::
  "env \<Rightarrow> json_file \<Rightarrow> json \<Rightarrow> json \<Rightarrow> json \<Rightarrow> json \<Rightarrow> json \<Rightarrow> json \<Rightarrow> json
     \<Rightarrow> json_file \<times> bool" where
  "add_to_json_db E file prompt_id ts ptext llm_name descr files src =
     (case file of
        Unreadable \<Rightarrow> (file, False)
      | Missing \<Rightarrow>
          (Content (JList [JDict (new_prompt E prompt_id ts ptext llm_name descr files src)]), True)
      | Content existing \<Rightarrow>
          (case py_append existing (JDict (new_prompt E prompt_id ts ptext llm_name descr files src)) of
             Inl e \<Rightarrow> (file, False)
           | Inr all_prompts \<Rightarrow> (Content all_prompts, True)))"





section \<open>Sample surroundings\<close>

text \<open>
  Surroundings for concrete runs: the readable files are those of \<open>files\<close>, every text
  counts \<open>tokens\<close> tokens, the digest of a content is the content itself,
  \<open>fromisoformat\<close> and \<open>strptime\<close> accept nothing of what is left to them, and the
  standard output encodes every character.
\<close>

definition sample_env :: "(string \<times> string) list \<Rightarrow> nat \<Rightarrow> env" where
  "sample_env files tokens =
     \<lparr>read_bytes = map_of files,
      read_text = (\<lambda>p. case map_of files p of
                           Some c \<Rightarrow> Inr c
                         | None \<Rightarrow> Inl ''No such file or directory''),
      md5_hexdigest = (\<lambda>c. c),
      tokenize = (\<lambda>t. Some tokens),
      fromisoformat = (\<lambda>s. None),
      strptime = (\<lambda>s f. None),
      isoformat = (\<lambda>d. ''2025-05-09T23:15:44''),
      fnmatch = (\<lambda>name pattern. False),
      basename = (\<lambda>p. p),
      py_str = (\<lambda>v. ''None''),
      exception_text = (\<lambda>e v. ''Invalid isoformat string''),
      stdout_encodes = (\<lambda>c. True)\<rparr>"

text \<open>
  \<^verbatim>\<open>PromptDatabase.__init__\<close> (no object exists yet), a database whose file holds the
  given entries, default ids that differ from entry to entry, and a database with one
  prompt, recorded and active.
\<close>

definition PromptDatabase_init :: PromptDatabase where
  "PromptDatabase_init =
     \<lparr>heap = (\<lambda>ref. PromptRecord_init [] 0 (JStr []) (JStr []) (JStr [])),
      next_ref = 0, prompts = [], active_prompt = None, prompt_database_json = Missing\<rparr>"

definition stored_db :: "json list \<Rightarrow> PromptDatabase" where
  "stored_db entries = PromptDatabase_init\<lparr>prompt_database_json := Content (JList entries)\<rparr>"

definition sample_uuid4 :: "nat \<Rightarrow> string" where
  "sample_uuid4 i = replicate (Suc i) CHR ''u''"

definition sample_db :: PromptDatabase where
  "sample_db =
     (case new_object (PromptRecord_init ''id-1'' 0 (JStr ''fix the parser'') (JStr ''Claude'') (JStr []))
             PromptDatabase_init of
        (prompt_record, s) \<Rightarrow> add_prompt (sample_env [] 0) s prompt_record)"

text \<open>
  A database whose file holds a prompt \<open>A\<close>, and a second file with another text under
  the id \<open>A\<close> and two entries under the id \<open>B\<close>.
\<close>

definition stored_a :: PromptDatabase where
  "stored_a = stored_db [JDict [(''id'', JStr ''A''), (''prompt_text'', JStr ''original'')]]"

definition a_changed :: "(string \<times> json) list" where
  "a_changed = [(''id'', JStr ''A''), (''prompt_text'', JStr ''changed'')]"

definition b_first :: "(string \<times> json) list" where
  "b_first = [(''id'', JStr ''B''), (''prompt_text'', JStr ''new'')]"

definition b_second :: "(string \<times> json) list" where
  "b_second = [(''id'', JStr ''B''), (''prompt_text'', JStr ''newer'')]"

definition claude_file :: json_file where
  "claude_file = Content (JList [JDict a_changed, JDict b_first, JDict b_second])"

text \<open>
  The application with the sample database, two pending paths and a given configuration;
  surroundings in which both paths can be read and count 200 tokens; a configuration whose
  last backup was at \<open>t\<close>, and one that also holds the current baselines of both files.
\<close>

definition sample_app :: "AutoBackupConfig \<Rightarrow> App" where
  "sample_app c =
     \<lparr>heap = heap sample_db, next_ref = next_ref sample_db, prompts = prompts sample_db,
      active_prompt = active_prompt sample_db,
      prompt_database_json = prompt_database_json sample_db,
      config = c,
      pending_changes = [''/a.py'', ''/b.py''],
      processing_scheduled = Some True, scheduled_calls = 1, backups = []\<rparr>"

definition two_files :: env where
  "two_files = sample_env [(''/a.py'', ''x''), (''/b.py'', ''y'')] 200"

definition backed_up_at :: "datetime \<Rightarrow> AutoBackupConfig" where
  "backed_up_at t = AutoBackupConfig_init\<lparr>last_backup_time := Some t\<rparr>"


text \<open>
  Two files to snapshot; an object as \<^verbatim>\<open>_add_to_json_db\<close> writes it, and the record
  \<^verbatim>\<open>from_dict\<close> makes of it.
\<close>

definition snapshot_files :: env where
  "snapshot_files = sample_env [(''/a.py'', ''print(1)\<newline>''), (''/b/c.txt'', ''hello'')] 0"

definition wire_prompt :: "(string \<times> json) list" where
  "wire_prompt =
     new_prompt (sample_env [] 0) (JStr ''id-9'') (JStr ''2025-05-09T23:15:44'') (JStr ''refactor'')
       (JStr ''Claude'') (JStr ''captured via proxy'') (JList [JStr ''/a.py'']) (JStr ''Web Browser'')"

definition wire_record :: PromptRecord where
  "wire_record =
     \<lparr>id' = JStr ''id-9'', timestamp = 1746832544000000, prompt_text = JStr ''refactor'',
      llm_used = JStr ''Claude'', description = JStr ''captured via proxy'',
      associated_files = JList [JStr ''/a.py''], file_changes = JDict [],
      retroactive_notes = JDict [], source = JStr ''Unknown''\<rparr>"

text \<open>
  The texts of the four encodings: \<open>digits n k\<close> is \<open>k\<close> written with \<open>n\<close> digits,
  as \<^verbatim>\<open>isoformat\<close> writes the fields of a datetime.
\<close>

fun digits :: "nat \<Rightarrow> int \<Rightarrow> string" where
  "digits 0 k = []"
| "digits (Suc n) k = (''0123456789'' ! nat (k div 10 ^ n mod 10)) # digits n k"

definition date_text :: "int \<Rightarrow> int \<Rightarrow> int \<Rightarrow> string" where
  "date_text year month day = digits 4 year @ ''-'' @ digits 2 month @ ''-'' @ digits 2 day"

definition time_text :: "int \<Rightarrow> int \<Rightarrow> int \<Rightarrow> string" where
  "time_text hour minute second = digits 2 hour @ '':'' @ digits 2 minute @ '':'' @ digits 2 second"

text \<open>
  Surroundings whose standard output encodes ASCII only, and a timestamp with a letter
  outside ASCII.
\<close>

definition ascii :: "char \<Rightarrow> bool" where
  "ascii c = (of_char c < (128 :: nat))"

definition ascii_stdout :: env where
  "ascii_stdout = (sample_env [] 0)\<lparr>stdout_encodes := ascii\<rparr>"

definition fevrier :: string where
  "fevrier = ''10 f'' @ [CHR 0xE9] @ ''vrier 2025''"






section \<open>Loading keeps the first record of an id\<close>

lemma new_objects_spec:
  "new_objects rs s = (refs, s') \<Longrightarrow>
     next_ref s \<le> next_ref s' \<and>
     (\<forall>r \<in> set refs. r < next_ref s') \<and>
     map (heap s') refs = rs \<and>
     (\<forall>r < next_ref s. heap s' r = heap s r) \<and>
     prompts s' = prompts s \<and> prompt_database_json s' = prompt_database_json s"
proof (induction rs arbitrary: s refs s')
  case Nil
  then show ?case by simp
next
  case (Cons r rs)
  obtain refs1 s1 where rest: "new_objects rs (snd (new_object r s)) = (refs1, s1)"
    by (cases "new_objects rs (snd (new_object r s))")
  from Cons.prems rest have refs: "refs = next_ref s # refs1" and s': "s' = s1"
    by (auto simp: new_object_def)
  note ih = Cons.IH [OF rest]
  have nr: "next_ref (snd (new_object r s)) = Suc (next_ref s)"
    by (simp add: new_object_def)
  have hp: "heap (snd (new_object r s)) = (heap s)(next_ref s := r)"
    by (simp add: new_object_def)
  have "next_ref s \<le> next_ref s'"
    using ih s' nr by simp
  moreover have "\<forall>r \<in> set refs. r < next_ref s'"
    using ih s' nr refs by auto
  moreover have "heap s' (next_ref s) = r"
    using ih s' nr hp by simp
  then have "map (heap s') refs = r # rs"
    using ih refs s' by simp
  moreover have "\<forall>q < next_ref s. heap s' q = heap s q"
    using ih s' nr hp by simp
  moreover have "prompts s' = prompts s \<and> prompt_database_json s' = prompt_database_json s"
    using ih s' by (simp add: new_object_def)
  ultimately show ?case by blast
qed

lemma load_standard_records:
  assumes "allocated s"
  shows "records (fst (load_standard E uuid4 now s)) =
           (case standard_records E uuid4 now (prompt_database_json s) of
              Some rs \<Rightarrow> rs | None \<Rightarrow> records s)"
    and "allocated (fst (load_standard E uuid4 now s))"
    and "prompt_database_json (fst (load_standard E uuid4 now s)) = prompt_database_json s"
proof -
  show "records (fst (load_standard E uuid4 now s)) =
           (case standard_records E uuid4 now (prompt_database_json s) of
              Some rs \<Rightarrow> rs | None \<Rightarrow> records s)"
    by (auto simp: load_standard_def standard_records_def records_def
          split: json_file.splits sum.splits prod.splits dest!: new_objects_spec)
  show "allocated (fst (load_standard E uuid4 now s))"
    using assms
    by (auto simp: load_standard_def allocated_def list_all_iff
          split: json_file.splits sum.splits prod.splits dest!: new_objects_spec)
  show "prompt_database_json (fst (load_standard E uuid4 now s)) = prompt_database_json s"
    by (auto simp: load_standard_def
          split: json_file.splits sum.splits prod.splits dest!: new_objects_spec)
qed

lemma load_claude_records:
  "allocated s \<Longrightarrow>
     records (fst (load_claude now ps s)) = fst (merge_claude now ps (records s)) \<and>
     snd (load_claude now ps s) = snd (merge_claude now ps (records s)) \<and>
     allocated (fst (load_claude now ps s)) \<and>
     prompt_database_json (fst (load_claude now ps s)) = prompt_database_json s"
proof (induction now ps s rule: load_claude.induct)
  case (2 now p rest s)
  let ?s' = "(snd (new_object (claude_record now p) s))
               \<lparr>prompts := prompts (snd (new_object (claude_record now p) s)) @ [next_ref s]\<rparr>"
  have ex: "list_ex (\<lambda>existing. py_eq (id' (heap s existing)) (get p ''id'' JNull)) (prompts s) =
            list_ex (\<lambda>existing. py_eq (id' existing) (get p ''id'' JNull)) (records s)"
    by (simp add: records_def list_ex_iff)
  show ?case
  proof (cases "list_ex (\<lambda>existing. py_eq (id' (heap s existing)) (get p ''id'' JNull)) (prompts s)")
    case True
    then show ?thesis using 2 ex by simp
  next
    case False
    have alloc: "allocated ?s'"
      using "2.prems" by (auto simp: allocated_def new_object_def list_all_iff)
    have recs: "records ?s' = records s @ [claude_record now p]"
      using "2.prems" by (auto simp: records_def allocated_def new_object_def list_all_iff)
    have "new_object (claude_record now p) s = (next_ref s, snd (new_object (claude_record now p) s))"
      by (simp add: new_object_def)
    from "2.IH"(2) [OF False this [symmetric] alloc] False ex recs
    show ?thesis
      by (simp add: new_object_def)
  qed
qed simp_all

lemma merge_claude_prefix: "prefix rs (fst (merge_claude now ps rs))"
proof (induction now ps rs rule: merge_claude.induct)
  case (2 now p rest rs)
  then show ?case
    by (auto intro: prefix_order.trans [of rs "rs @ [claude_record now p]"])
qed simp_all

lemma claude_record_id: "id' (claude_record now p) = get p ''id'' JNull"
  by (simp add: claude_record_def PromptRecord_init_def Let_def split: option.splits json.splits)

lemma present_iff:
  "list_ex (\<lambda>existing. py_eq (id' existing) i) rs = (canon i \<in> set (map (\<lambda>r. canon (id' r)) rs))"
  by (force simp: list_ex_iff py_eq_def image_iff)

lemma merge_claude_distinct:
  "distinct (map (\<lambda>r. canon (id' r)) rs) \<Longrightarrow>
     distinct (map (\<lambda>r. canon (id' r)) (fst (merge_claude now ps rs)))"
proof (induction now ps rs rule: merge_claude.induct)
  case (2 now p rest rs)
  show ?case
  proof (cases "list_ex (\<lambda>existing. py_eq (id' existing) (get p ''id'' JNull)) rs")
    case True
    then show ?thesis using 2 by simp
  next
    case False
    then have "canon (get p ''id'' JNull) \<notin> set (map (\<lambda>r. canon (id' r)) rs)"
      by (simp add: present_iff)
    then have "distinct (map (\<lambda>r. canon (id' r)) (rs @ [claude_record now p]))"
      using "2.prems" by (simp add: claude_record_id)
    then show ?thesis using False "2.IH"(2) by simp
  qed
qed simp_all

lemma merge_claude_covers:
  "set (seen_ids ps) \<subseteq> set (map (\<lambda>r. canon (id' r)) (fst (merge_claude now ps rs)))"
proof (induction now ps rs rule: merge_claude.induct)
  case (2 now p rest rs)
  have mono: "set (map (\<lambda>r. canon (id' r)) xs)
                \<subseteq> set (map (\<lambda>r. canon (id' r)) (fst (merge_claude now rest xs)))" for xs
    using merge_claude_prefix [of xs now rest] by (auto simp: prefix_def)
  show ?case
  proof (cases "list_ex (\<lambda>existing. py_eq (id' existing) (get p ''id'' JNull)) rs")
    case True
    then have "canon (get p ''id'' JNull) \<in> set (map (\<lambda>r. canon (id' r)) rs)"
      by (simp add: present_iff)
    then show ?thesis using True 2 mono [of rs] by auto
  next
    case False
    have "canon (get p ''id'' JNull) \<in> set (map (\<lambda>r. canon (id' r)) (rs @ [claude_record now p]))"
      by (simp add: claude_record_id)
    then show ?thesis using False 2 mono [of "rs @ [claude_record now p]"] by auto
  qed
qed simp_all

lemma merge_claude_fixed:
  "set (seen_ids ps) \<subseteq> set (map (\<lambda>r. canon (id' r)) rs) \<Longrightarrow> fst (merge_claude now ps rs) = rs"
proof (induction now ps rs rule: merge_claude.induct)
  case (2 now p rest rs)
  then have "list_ex (\<lambda>existing. py_eq (id' existing) (get p ''id'' JNull)) rs"
    by (simp add: present_iff)
  then show ?case using 2 by simp
qed simp_all

text \<open>The first entry with an id that is not yet present is recorded, whatever follows it.\<close>

lemma merge_claude_first:
  assumes "\<forall>q \<in> set pre. \<exists>d. q = JDict d \<and> \<not> py_eq (get d ''id'' JNull) (get p ''id'' JNull)"
      and "\<not> list_ex (\<lambda>existing. py_eq (id' existing) (get p ''id'' JNull)) rs"
  shows "claude_record now p \<in> set (fst (merge_claude now (pre @ JDict p # post) rs))"
  using assms
proof (induction pre arbitrary: rs)
  case Nil
  have "prefix (rs @ [claude_record now p]) (fst (merge_claude now post (rs @ [claude_record now p])))"
    by (rule merge_claude_prefix)
  then have "claude_record now p \<in> set (fst (merge_claude now post (rs @ [claude_record now p])))"
    by (auto simp: prefix_def)
  then show ?case using Nil by simp
next
  case (Cons q pre)
  then obtain d where q: "q = JDict d"
    and nd: "\<not> py_eq (get d ''id'' JNull) (get p ''id'' JNull)" by auto
  have rest: "\<forall>q \<in> set pre. \<exists>d. q = JDict d \<and> \<not> py_eq (get d ''id'' JNull) (get p ''id'' JNull)"
    using Cons.prems(1) by simp
  show ?case
  proof (cases "list_ex (\<lambda>existing. py_eq (id' existing) (get d ''id'' JNull)) rs")
    case True
    then show ?thesis using Cons.IH [OF rest Cons.prems(2)] q by simp
  next
    case False
    have "\<not> list_ex (\<lambda>existing. py_eq (id' existing) (get p ''id'' JNull)) (rs @ [claude_record now d])"
      using Cons.prems(2) nd by (simp add: claude_record_id)
    then show ?thesis using Cons.IH [OF rest] q False by simp
  qed
qed

text \<open>What the clock and the default ids change in a run.\<close>

lemma other_formats_clock:
  "other_formats E now v = other_formats E now' v \<or>
   (other_formats E now v = Inr now \<and> other_formats E now' v = Inr now')"
  by (simp add: other_formats_def split: sum.splits option.splits)

lemma timestamp_try_clock:
  "timestamp_try E now v = timestamp_try E now' v \<or>
   (timestamp_try E now v = Inr now \<and> timestamp_try E now' v = Inr now')"
proof (cases "timestamp_try E now v = other_formats E now v \<and>
              timestamp_try E now' v = other_formats E now' v")
  case True
  then show ?thesis using other_formats_clock [of E now v now'] by auto
next
  case False
  then have "timestamp_try E now v = timestamp_try E now' v"
    by (auto simp: timestamp_try_def split: sum.splits bool.splits)
  then show ?thesis by simp
qed

lemma parse_timestamp_clock:
  "parse_timestamp E now v = parse_timestamp E now' v \<or>
   (parse_timestamp E now v = Inr now \<and> parse_timestamp E now' v = Inr now')"
  using timestamp_try_clock [of E now v now']
  by (auto simp: parse_timestamp_def split: sum.splits)

lemma from_dict_clock:
  "(\<exists>e e'. from_dict E u now v = Inl e \<and> from_dict E u' now' v = Inl e') \<or>
   (\<exists>r r'. from_dict E u now v = Inr r \<and> from_dict E u' now' v = Inr r' \<and> same_entry r r')"
proof (cases v)
  case (JDict d)
  show ?thesis
    using parse_timestamp_clock [of E now "get d ''timestamp'' (JStr [])" now']
    unfolding JDict
    by (cases "parse_timestamp E now (get d ''timestamp'' (JStr []))";
        cases "parse_timestamp E now' (get d ''timestamp'' (JStr []))")
       (auto simp: from_dict_def same_entry_def)
qed (simp_all add: from_dict_def)

lemma from_dict_all_clock:
  "(\<exists>e e'. from_dict_all E uuid4 now i ps = Inl e \<and> from_dict_all E uuid4' now' i ps = Inl e') \<or>
   (\<exists>rs rs'. from_dict_all E uuid4 now i ps = Inr rs \<and> from_dict_all E uuid4' now' i ps = Inr rs' \<and>
              list_all2 same_entry rs rs')"
proof (induction ps arbitrary: i)
  case Nil
  then show ?case by simp
next
  case (Cons p ps)
  show ?case
    using from_dict_clock [of E "uuid4 i" now p "uuid4' i" now'] Cons [of "Suc i"]
    by (auto split: sum.splits)
qed

lemma same_entry_untimed:
  "list_all2 same_entry rs rs' \<Longrightarrow> map id' rs' = map id' rs \<Longrightarrow> map untimed rs' = map untimed rs"
proof (induction rule: list_all2_induct)
  case Nil
  then show ?case by simp
next
  case (Cons r rs r' rs')
  have "untimed r' = untimed r"
    using Cons.hyps(1) Cons.prems by (cases r; cases r') (simp add: same_entry_def untimed_def)
  then show ?case using Cons by simp
qed

lemma standard_records_clock:
  "(standard_records E uuid4 now file = None \<and> standard_records E uuid4' now' file = None) \<or>
   (\<exists>rs rs'. standard_records E uuid4 now file = Some rs \<and>
              standard_records E uuid4' now' file = Some rs' \<and> list_all2 same_entry rs rs')"
proof (cases "\<exists>data ps. file = Content data \<and> py_iter data = Inr ps")
  case False
  then show ?thesis
    by (auto simp: standard_records_def split: json_file.splits sum.splits)
next
  case True
  then obtain data ps where "file = Content data" "py_iter data = Inr ps" by blast
  then show ?thesis
    using from_dict_all_clock [of E uuid4 now 0 ps uuid4' now']
    by (auto simp: standard_records_def)
qed

lemma untimed_id: "id' (untimed r) = id' r"
  by (simp add: untimed_def)

lemma claude_record_untimed: "untimed (claude_record now p) = untimed (claude_record now' p)"
  by (simp add: claude_record_def PromptRecord_init_def untimed_def Let_def
        split: option.splits json.splits)

lemma merge_claude_untimed:
  "map untimed rs = map untimed rs' \<Longrightarrow>
     map untimed (fst (merge_claude now ps rs)) = map untimed (fst (merge_claude now' ps rs'))"
proof (induction now ps rs arbitrary: rs' rule: merge_claude.induct)
  case (2 now p rest rs)
  have "list_ex (\<lambda>existing. py_eq (id' existing) (get p ''id'' JNull)) rs =
        list_ex (\<lambda>u. py_eq (id' u) (get p ''id'' JNull)) (map untimed rs)"
    by (simp add: list_ex_iff untimed_id)
  also have "\<dots> = list_ex (\<lambda>u. py_eq (id' u) (get p ''id'' JNull)) (map untimed rs')"
    using "2.prems" by simp
  also have "\<dots> = list_ex (\<lambda>existing. py_eq (id' existing) (get p ''id'' JNull)) rs'"
    by (simp add: list_ex_iff untimed_id)
  finally have same: "list_ex (\<lambda>existing. py_eq (id' existing) (get p ''id'' JNull)) rs =
        list_ex (\<lambda>existing. py_eq (id' existing) (get p ''id'' JNull)) rs'" .
  show ?case
  proof (cases "list_ex (\<lambda>existing. py_eq (id' existing) (get p ''id'' JNull)) rs")
    case True
    then show ?thesis using "2.IH"(1) [OF True "2.prems"] same by simp
  next
    case False
    have "map untimed (rs @ [claude_record now p]) = map untimed (rs' @ [claude_record now' p])"
      using "2.prems" claude_record_untimed [of now p now'] by simp
    then show ?thesis using "2.IH"(2) [OF False] False same by simp
  qed
qed simp_all

lemma load_fst:
  "fst (load E uuid4 now cp s) =
     fst (load_claude now (claude_entries cp) (fst (load_standard E uuid4 now s)))"
  by (simp add: load_def claude_entries_def split: prod.splits json_file.splits sum.splits)

lemma load_records:
  assumes "allocated s"
  shows "records (fst (load E uuid4 now cp s)) =
           fst (merge_claude now (claude_entries cp) (records (fst (load_standard E uuid4 now s))))"
    and "allocated (fst (load E uuid4 now cp s))"
    and "prompt_database_json (fst (load E uuid4 now cp s)) = prompt_database_json s"
proof -
  have a1: "allocated (fst (load_standard E uuid4 now s))"
    and f1: "prompt_database_json (fst (load_standard E uuid4 now s)) = prompt_database_json s"
    using load_standard_records(2,3) [OF assms] by simp_all
  note lc = load_claude_records [OF a1, of now "claude_entries cp"]
  show "records (fst (load E uuid4 now cp s)) =
           fst (merge_claude now (claude_entries cp) (records (fst (load_standard E uuid4 now s))))"
    using lc by (simp add: load_fst)
  show "allocated (fst (load E uuid4 now cp s))"
    using lc by (simp add: load_fst)
  show "prompt_database_json (fst (load E uuid4 now cp s)) = prompt_database_json s"
    using lc f1 by (simp add: load_fst)
qed

text \<open>A second run, at another reading of the clock and with other default ids.\<close>

lemma rerun_distinct:
  assumes "allocated s"
      and "distinct (ids (fst (load_standard E uuid4 now s)))"
      and "distinct (ids (fst (load_standard E fresh later s)))"
  shows "distinct (ids (fst (load E fresh later cp (fst (load E uuid4 now cp s)))))"
proof -
  let ?s2 = "fst (load E uuid4 now cp s)"
  have a2: "allocated ?s2" and f2: "prompt_database_json ?s2 = prompt_database_json s"
    by (rule load_records(2,3) [OF assms(1)])+
  have d2: "distinct (ids ?s2)"
    using assms(2) load_records(1) [OF assms(1), of E uuid4 now cp]
          merge_claude_distinct [of "records (fst (load_standard E uuid4 now s))" now "claude_entries cp"]
    by (simp add: ids_def)
  have "distinct (ids (fst (load_standard E fresh later ?s2)))"
  proof (cases "standard_records E fresh later (prompt_database_json s)")
    case None
    then show ?thesis
      using load_standard_records(1) [OF a2, of E fresh later] f2 d2 by (simp add: ids_def)
  next
    case (Some rs)
    then show ?thesis
      using load_standard_records(1) [OF a2, of E fresh later] f2
            load_standard_records(1) [OF assms(1), of E fresh later] assms(3)
      by (simp add: ids_def)
  qed
  then show ?thesis
    using load_records(1) [OF a2, of E fresh later cp]
          merge_claude_distinct [of "records (fst (load_standard E fresh later ?s2))" later
            "claude_entries cp"]
    by (simp add: ids_def)
qed

lemma rerun_untimed:
  assumes "allocated s"
      and "map id' (records (fst (load_standard E fresh later s)))
             = map id' (records (fst (load_standard E uuid4 now s)))"
  shows "map untimed (records (fst (load E fresh later cp (fst (load E uuid4 now cp s)))))
           = map untimed (records (fst (load E uuid4 now cp s)))"
proof -
  let ?s1 = "fst (load_standard E uuid4 now s)"
  let ?s2 = "fst (load E uuid4 now cp s)"
  have a2: "allocated ?s2" and f2: "prompt_database_json ?s2 = prompt_database_json s"
    by (rule load_records(2,3) [OF assms(1)])+
  have r2: "records ?s2 = fst (merge_claude now (claude_entries cp) (records ?s1))"
    by (rule load_records(1) [OF assms(1)])
  have r3: "records (fst (load E fresh later cp ?s2)) =
          fst (merge_claude later (claude_entries cp) (records (fst (load_standard E fresh later ?s2))))"
    by (rule load_records(1) [OF a2])
  have l2: "records (fst (load_standard E fresh later ?s2)) =
          (case standard_records E fresh later (prompt_database_json s) of
             Some rs \<Rightarrow> rs | None \<Rightarrow> records ?s2)"
    using load_standard_records(1) [OF a2, of E fresh later] f2 by simp
  note l1 = load_standard_records(1) [OF assms(1), of E uuid4 now]
  note l1' = load_standard_records(1) [OF assms(1), of E fresh later]
  from standard_records_clock [of E uuid4 now "prompt_database_json s" fresh later]
  show ?thesis
  proof
    assume n: "standard_records E uuid4 now (prompt_database_json s) = None \<and>
               standard_records E fresh later (prompt_database_json s) = None"
    have "set (seen_ids (claude_entries cp)) \<subseteq> set (map (\<lambda>r. canon (id' r)) (records ?s2))"
      unfolding r2 by (rule merge_claude_covers)
    then have "fst (merge_claude later (claude_entries cp) (records ?s2)) = records ?s2"
      by (rule merge_claude_fixed)
    then show ?thesis using r3 l2 n by simp
  next
    assume "\<exists>rs rs'. standard_records E uuid4 now (prompt_database_json s) = Some rs \<and>
              standard_records E fresh later (prompt_database_json s) = Some rs' \<and>
              list_all2 same_entry rs rs'"
    then obtain rs rs' where s: "standard_records E uuid4 now (prompt_database_json s) = Some rs"
        "standard_records E fresh later (prompt_database_json s) = Some rs'"
        "list_all2 same_entry rs rs'" by blast
    have "map id' rs' = map id' rs"
      using assms(2) l1 l1' s by simp
    then have "map untimed rs' = map untimed rs"
      using same_entry_untimed [OF s(3)] by simp
    then have "map untimed (fst (merge_claude later (claude_entries cp) rs'))
                 = map untimed (fst (merge_claude now (claude_entries cp) rs))"
      by (rule merge_claude_untimed)
    then show ?thesis using r3 l2 r2 l1 s by simp
  qed
qed

text \<open>
  C1, as amended. When every reference of the database has been handed out and the records
  in place after the first half of \<^verbatim>\<open>load\<close> (those of \<^verbatim>\<open>prompt_database.json\<close>,
  or the ones the database held when that file gives none) carry pairwise different ids,
  then \<^verbatim>\<open>load\<close> ends with one record per id. Those records come first in the result,
  unchanged, so an entry of \<^verbatim>\<open>claude_prompts.json\<close> with an id already present is
  skipped and never replaces a record or its text; and the first entry of
  \<^verbatim>\<open>claude_prompts.json\<close> with an id that is not yet present is recorded as it is,
  whatever entries follow it. Running \<^verbatim>\<open>load\<close> again, at a later reading of the clock
  and with other default ids, adds no duplicates: the ids are again pairwise different
  when those of the first half are; and when the first half gives the same ids as before
  (it does when every entry of \<^verbatim>\<open>prompt_database.json\<close> has its id), the second run
  ends with the same records in the same order, up to the timestamps that \<^verbatim>\<open>load\<close>
  takes from the clock.
\<close>

theorem load_first_seen_wins:
  assumes "allocated s"
      and "distinct (ids (fst (load_standard E uuid4 now s)))"
  shows "distinct (ids (fst (load E uuid4 now cp s))) \<and>
         prefix (records (fst (load_standard E uuid4 now s))) (records (fst (load E uuid4 now cp s))) \<and>
         (claude_entries cp = pre @ JDict p # post \<and>
          (\<forall>q \<in> set pre. \<exists>d. q = JDict d \<and> \<not> py_eq (get d ''id'' JNull) (get p ''id'' JNull)) \<and>
          \<not> list_ex (\<lambda>existing. py_eq (id' existing) (get p ''id'' JNull))
                (records (fst (load_standard E uuid4 now s))) \<longrightarrow>
            claude_record now p \<in> set (records (fst (load E uuid4 now cp s)))) \<and>
         (distinct (ids (fst (load_standard E fresh later s))) \<longrightarrow>
            distinct (ids (fst (load E fresh later cp (fst (load E uuid4 now cp s)))))) \<and>
         (map id' (records (fst (load_standard E fresh later s)))
            = map id' (records (fst (load_standard E uuid4 now s))) \<longrightarrow>
            map untimed (records (fst (load E fresh later cp (fst (load E uuid4 now cp s)))))
              = map untimed (records (fst (load E uuid4 now cp s))))"
proof -
  let ?s1 = "fst (load_standard E uuid4 now s)"
  let ?s2 = "fst (load E uuid4 now cp s)"
  have r2: "records ?s2 = fst (merge_claude now (claude_entries cp) (records ?s1))"
    by (rule load_records(1) [OF assms(1)])
  have d: "distinct (ids ?s2)"
    using assms(2) r2 merge_claude_distinct [of "records ?s1" now "claude_entries cp"]
    by (simp add: ids_def)
  have p: "prefix (records ?s1) (records ?s2)"
    using r2 merge_claude_prefix by simp
  have first: "claude_entries cp = pre @ JDict p # post \<and>
          (\<forall>q \<in> set pre. \<exists>d. q = JDict d \<and> \<not> py_eq (get d ''id'' JNull) (get p ''id'' JNull)) \<and>
          \<not> list_ex (\<lambda>existing. py_eq (id' existing) (get p ''id'' JNull)) (records ?s1) \<longrightarrow>
            claude_record now p \<in> set (records ?s2)"
    using merge_claude_first [of pre p "records ?s1" now post] r2 by auto
  have again: "distinct (ids (fst (load_standard E fresh later s))) \<longrightarrow>
            distinct (ids (fst (load E fresh later cp ?s2)))"
    using rerun_distinct [OF assms, of fresh later cp] by blast
  have same: "map id' (records (fst (load_standard E fresh later s))) = map id' (records ?s1) \<longrightarrow>
            map untimed (records (fst (load E fresh later cp ?s2))) = map untimed (records ?s2)"
    using rerun_untimed [OF assms(1), of E fresh later uuid4 now cp] by blast
  show ?thesis
    using d p first again same by blast
qed

text \<open>
  The ids need not be different to begin with: two entries of \<^verbatim>\<open>prompt_database.json\<close>
  with the same id are both loaded.
\<close>

theorem load_duplicate_counterexample:
  "\<not> distinct (ids (fst (load (sample_env [] 0) sample_uuid4 7 Missing
      (stored_db [JDict [(''id'', JStr ''A''), (''prompt_text'', JStr ''one'')],
                  JDict [(''id'', JStr ''A''), (''prompt_text'', JStr ''two'')]]))))"
  by code_simp

text \<open>
  A run: the standard file holds a prompt \<open>A\<close>, the second file another text under the
  id \<open>A\<close> and two entries under the id \<open>B\<close>. The text of \<open>A\<close> stays, the first
  \<open>B\<close> is added and the second is not; a second run, one tick later, ends with the
  same two records.
\<close>

theorem load_first_seen_wins_witness:
  "allocated stored_a \<and>
   distinct (ids (fst (load_standard (sample_env [] 0) sample_uuid4 7 stored_a))) \<and>
   distinct (ids (fst (load (sample_env [] 0) sample_uuid4 7 claude_file stored_a))) \<and>
   map prompt_text (records (fst (load (sample_env [] 0) sample_uuid4 7 claude_file stored_a)))
     = [JStr ''original'', JStr ''new''] \<and>
   claude_record 7 b_first
     \<in> set (records (fst (load (sample_env [] 0) sample_uuid4 7 claude_file stored_a))) \<and>
   distinct (ids (fst (load (sample_env [] 0) sample_uuid4 8 claude_file
       (fst (load (sample_env [] 0) sample_uuid4 7 claude_file stored_a))))) \<and>
   map untimed (records (fst (load (sample_env [] 0) sample_uuid4 8 claude_file
       (fst (load (sample_env [] 0) sample_uuid4 7 claude_file stored_a)))))
     = map untimed (records (fst (load (sample_env [] 0) sample_uuid4 7 claude_file stored_a)))"
proof -
  have h1: "allocated stored_a"
    by code_simp
  have h2: "distinct (ids (fst (load_standard (sample_env [] 0) sample_uuid4 7 stored_a)))"
    by code_simp
  have h3: "map prompt_text (records (fst (load (sample_env [] 0) sample_uuid4 7 claude_file stored_a)))
     = [JStr ''original'', JStr ''new'']"
    by code_simp
  have e1: "claude_entries claude_file = [JDict a_changed] @ JDict b_first # [JDict b_second]"
    by (simp add: claude_entries_def claude_file_def)
  have e2: "\<forall>q \<in> set [JDict a_changed].
              \<exists>d. q = JDict d \<and> \<not> py_eq (get d ''id'' JNull) (get b_first ''id'' JNull)"
    by (simp add: a_changed_def b_first_def get_def py_eq_def)
  have e3: "\<not> list_ex (\<lambda>existing. py_eq (id' existing) (get b_first ''id'' JNull))
                (records (fst (load_standard (sample_env [] 0) sample_uuid4 7 stored_a)))"
    by code_simp
  have e4: "distinct (ids (fst (load_standard (sample_env [] 0) sample_uuid4 8 stored_a)))"
    by code_simp
  have e5: "map id' (records (fst (load_standard (sample_env [] 0) sample_uuid4 8 stored_a)))
              = map id' (records (fst (load_standard (sample_env [] 0) sample_uuid4 7 stored_a)))"
    by code_simp
  show ?thesis
    using load_first_seen_wins [OF h1 h2, where cp = claude_file and pre = "[JDict a_changed]"
            and p = b_first and post = "[JDict b_second]" and fresh = sample_uuid4 and later = 8]
          h1 h2 h3 e1 e2 e3 e4 e5
    by blast
qed

section \<open>Associating a file with the active prompt\<close>

text \<open>
  C2, as amended. \<^verbatim>\<open>associate_file_with_active_prompt\<close> returns \<open>False\<close> and changes
  nothing when no prompt is active, and also when the path is already among the
  \<^verbatim>\<open>associated_files\<close> of the active prompt. When the path is new it is appended,
  \<^verbatim>\<open>file_changes[file_path]\<close> is set to the delta, the database is saved and the result
  is \<open>True\<close>. So the delta of the first call for a path stays.
\<close>

theorem associate_file_semantics:
  "(active_prompt s = None \<longrightarrow>
      associate_file_with_active_prompt E s f tc = (s, Inr False)) \<and>
   (active_prompt s = Some a \<and> associated_files (heap s a) = JList xs \<and> JStr f \<in> set xs \<longrightarrow>
      associate_file_with_active_prompt E s f tc = (s, Inr False)) \<and>
   (active_prompt s = Some a \<and> associated_files (heap s a) = JList xs \<and> JStr f \<notin> set xs \<and>
    file_changes (heap s a) = JDict d \<longrightarrow>
      associate_file_with_active_prompt E s f tc =
        (save E (s\<lparr>heap := (heap s)(a := (heap s a)
                   \<lparr>associated_files := JList (xs @ [JStr f]),
                    file_changes := JDict (AList.update f (JInt tc) d)\<rparr>)\<rparr>),
         Inr True))"
  by (simp add: associate_file_with_active_prompt_def Let_def)

text \<open>
  With no active prompt nothing happens; with one, the first call for \<open>/a.py\<close> records the
  path and the delta 10.
\<close>

theorem associate_file_semantics_witness:
  "associate_file_with_active_prompt (sample_env [] 0) (clear_active_prompt sample_db) ''/a.py'' 10
     = (clear_active_prompt sample_db, Inr False) \<and>
   snd (associate_file_with_active_prompt (sample_env [] 0) sample_db ''/a.py'' 10) = Inr True \<and>
   associated_files (heap (fst (associate_file_with_active_prompt (sample_env [] 0) sample_db ''/a.py'' 10)) 0)
     = JList [JStr ''/a.py''] \<and>
   file_changes (heap (fst (associate_file_with_active_prompt (sample_env [] 0) sample_db ''/a.py'' 10)) 0)
     = JDict [(''/a.py'', JInt 10)]"
  using associate_file_semantics [where s = "clear_active_prompt sample_db" and E = "sample_env [] 0"
          and f = "''/a.py''" and tc = 10 and a = 0 and xs = "[]" and d = "[]"]
        associate_file_semantics [where s = sample_db and E = "sample_env [] 0"
          and f = "''/a.py''" and tc = 10 and a = 0 and xs = "[]" and d = "[]"]
  by (simp add: sample_db_def PromptDatabase_init_def new_object_def add_prompt_def save_def
        PromptRecord_init_def clear_active_prompt_def)

text \<open>
  A second call for the same path, with delta 20, returns \<open>False\<close> and leaves the delta
  at 10: the later delta does not replace the earlier one.
\<close>

theorem associate_repeat_counterexample:
  "file_changes (heap (fst (associate_file_with_active_prompt (sample_env [] 0)
      (fst (associate_file_with_active_prompt (sample_env [] 0) sample_db ''/a.py'' 10)) ''/a.py'' 20)) 0)
     = JDict [(''/a.py'', JInt 10)] \<and>
   snd (associate_file_with_active_prompt (sample_env [] 0)
      (fst (associate_file_with_active_prompt (sample_env [] 0) sample_db ''/a.py'' 10)) ''/a.py'' 20)
     = Inr False"
  by (simp add: associate_file_with_active_prompt_def sample_db_def PromptDatabase_init_def
        new_object_def add_prompt_def save_def PromptRecord_init_def Let_def)

section \<open>The significance verdict\<close>

lemma check_file_other:
  "q \<noteq> p \<Longrightarrow> file_hashes (snd (check_file E c p)) q = file_hashes c q"
  by (simp add: check_file_def Let_def split: option.splits)

lemma check_file_min:
  "min_token_change (snd (check_file E c p)) = min_token_change c"
  by (simp add: check_file_def Let_def split: option.splits)

lemma check_file_cong:
  "file_hashes c' q = file_hashes c q \<Longrightarrow> min_token_change c' = min_token_change c
     \<Longrightarrow> fst (check_file E c' q) = fst (check_file E c q)"
  by (simp add: check_file_def Let_def split: option.splits)

lemma check_loop_verdicts:
  "distinct ps \<Longrightarrow>
     fst (check_loop E ps acc c) = acc @ concat (map (\<lambda>q. fst (check_file E c q)) ps)"
proof (induction ps arbitrary: acc c)
  case Nil
  then show ?case by simp
next
  case (Cons p ps)
  obtain found c' where step: "check_file E c p = (found, c')"
    by (cases "check_file E c p")
  have same: "fst (check_file E c' q) = fst (check_file E c q)" if "q \<in> set ps" for q
  proof -
    from that Cons.prems have "q \<noteq> p" by auto
    then have "file_hashes c' q = file_hashes c q"
      using check_file_other [of q p E c] step by simp
    moreover have "min_token_change c' = min_token_change c"
      using check_file_min [of E c p] step by simp
    ultimately show ?thesis by (rule check_file_cong)
  qed
  have "fst (check_loop E (p # ps) acc c) = fst (check_loop E ps (acc @ found) c')"
    using step by simp
  also have "\<dots> = (acc @ found) @ concat (map (\<lambda>q. fst (check_file E c' q)) ps)"
    using Cons.IH [of "acc @ found" c'] Cons.prems by simp
  also have "map (\<lambda>q. fst (check_file E c' q)) ps = map (\<lambda>q. fst (check_file E c q)) ps"
    using same by (intro map_cong) auto
  finally show ?case using step by simp
qed

lemma check_file_entries:
  "(q, d) \<in> set (fst (check_file E c p)) \<Longrightarrow> q = p"
  by (auto simp: check_file_def Let_def split: option.splits if_splits)

text \<open>
  C3. For a pending file that can be read, with \<open>t\<close> its current token count: it is reported
  as significant with delta \<open>d\<close> exactly when either no baseline exists and \<open>d = t\<close>, or a
  baseline \<open>(h0, t0)\<close> exists, the hash differs from \<open>h0\<close>, \<open>d = |t - t0|\<close> and
  \<open>d \<ge> min_token_change\<close>. So a first observation is always significant, an unchanged
  hash never is, and a changed one is exactly when the delta reaches the threshold.
\<close>

theorem significance_verdict:
  assumes "distinct pending" and "p \<in> set pending" and "read_bytes E p = Some content"
  shows "(p, d) \<in> set (fst (check_for_significant_changes E c pending)) \<longleftrightarrow>
           (case file_hashes c p of
              None \<Rightarrow> d = count_tokens_in_file E p
            | Some (h0, t0) \<Rightarrow>
                md5_hexdigest E content \<noteq> h0 \<and>
                d = \<bar>count_tokens_in_file E p - t0\<bar> \<and>
                d \<ge> min_token_change c)"
proof -
  have "(p, d) \<in> set (fst (check_for_significant_changes E c pending)) \<longleftrightarrow>
          (\<exists>q \<in> set pending. (p, d) \<in> set (fst (check_file E c q)))"
    using assms(1) by (simp add: check_for_significant_changes_def check_loop_verdicts)
  also have "\<dots> \<longleftrightarrow> (p, d) \<in> set (fst (check_file E c p))"
    using assms(2) check_file_entries by blast
  also have "\<dots> \<longleftrightarrow>
          (case file_hashes c p of
              None \<Rightarrow> d = count_tokens_in_file E p
            | Some (h0, t0) \<Rightarrow>
                md5_hexdigest E content \<noteq> h0 \<and>
                d = \<bar>count_tokens_in_file E p - t0\<bar> \<and>
                d \<ge> min_token_change c)"
    using assms(3) by (auto simp: check_file_def Let_def split: option.splits)
  finally show ?thesis .
qed

text \<open>
  The boundary of the threshold: with the threshold at 50 and a baseline of 100 tokens, a
  changed file of 150 tokens is significant with delta 50, and none of 149 tokens is
  significant with delta 49.
\<close>

theorem significance_verdict_witness:
  "(''/a.py'', 50) \<in> set (fst (check_for_significant_changes
       (sample_env [(''/a.py'', ''new'')] 150)
       (AutoBackupConfig_init\<lparr>file_hashes := [''/a.py'' \<mapsto> (''old'', 100)]\<rparr>) [''/a.py'']))
   \<and> (''/a.py'', 49) \<notin> set (fst (check_for_significant_changes
       (sample_env [(''/a.py'', ''new'')] 149)
       (AutoBackupConfig_init\<lparr>file_hashes := [''/a.py'' \<mapsto> (''old'', 100)]\<rparr>) [''/a.py'']))"
  using significance_verdict [of "[''/a.py'']" "''/a.py''" "sample_env [(''/a.py'', ''new'')] 150"
          "''new''" 50 "AutoBackupConfig_init\<lparr>file_hashes := [''/a.py'' \<mapsto> (''old'', 100)]\<rparr>"]
        significance_verdict [of "[''/a.py'']" "''/a.py''" "sample_env [(''/a.py'', ''new'')] 149"
          "''new''" 49 "AutoBackupConfig_init\<lparr>file_hashes := [''/a.py'' \<mapsto> (''old'', 100)]\<rparr>"]
  by (simp add: sample_env_def AutoBackupConfig_init_def count_tokens_in_file_def)

section \<open>A batch during the cooldown\<close>

text \<open>
  C4, as amended. When the pending set is not empty and the cooldown test holds (a last
  backup exists, \<open>cooldown_minutes\<close> is in the range of a \<open>timedelta\<close> and less
  than that has passed), \<^verbatim>\<open>_process_changes\<close> only resets \<^verbatim>\<open>_processing_scheduled\<close> and returns: no
  snapshot is triggered, the baselines in \<open>file_hashes\<close> are left as they were, no file
  is associated, and the pending paths stay in the pending set.
\<close>

theorem cooldown_leaves_batch:
  assumes "pending_changes s \<noteq> []" and "cooldown_active (config s) now = Inr True"
  shows "process_changes E now s = (s\<lparr>processing_scheduled := Some False\<rparr>, None)"
  using assms by (simp add: process_changes_def Let_def)

text \<open>
  A last backup 10 seconds ago with a cooldown of 5 minutes: the state is the one before the
  call but for the flag.
\<close>

theorem cooldown_leaves_batch_witness:
  "pending_changes (sample_app (backed_up_at 0)) \<noteq> [] \<and>
   cooldown_active (config (sample_app (backed_up_at 0))) 10000000 = Inr True \<and>
   process_changes two_files 10000000 (sample_app (backed_up_at 0))
     = ((sample_app (backed_up_at 0))\<lparr>processing_scheduled := Some False\<rparr>, None)"
proof -
  have h1: "pending_changes (sample_app (backed_up_at 0)) \<noteq> []"
    by (simp add: sample_app_def)
  have h2: "cooldown_active (config (sample_app (backed_up_at 0))) 10000000 = Inr True"
    by (simp add: sample_app_def backed_up_at_def cooldown_active_def timedelta_minutes_def
          AutoBackupConfig_init_def)
  show ?thesis
    using cooldown_leaves_batch [OF h1 h2, of two_files] h1 h2 by simp
qed

text \<open>
  In that run the baseline of \<open>/a.py\<close> has not moved to the current hash and token count
  (there is still none), and both paths are still pending.
\<close>

theorem cooldown_baseline_counterexample:
  "file_hashes (config (fst (process_changes two_files 10000000 (sample_app (backed_up_at 0))))) ''/a.py''
     = None \<and>
   pending_changes (fst (process_changes two_files 10000000 (sample_app (backed_up_at 0))))
     = [''/a.py'', ''/b.py'']"
  by (simp add: process_changes_def sample_app_def backed_up_at_def cooldown_active_def
        timedelta_minutes_def AutoBackupConfig_init_def Let_def)

section \<open>Association and snapshots\<close>










section \<open>The source decision list\<close>

lemma cond_Inr: "cond (Inr b) x y = (if b then x else y)"
  by (simp add: cond_def)

lemma and_then_Inr: "and_then (Inr a) (Inr b) = Inr (a \<and> b)"
  by (cases a) (simp_all add: and_then_def cond_def)

lemma or_else_Inr: "or_else (Inr a) (Inr b) = Inr (a \<or> b)"
  by (cases a) (simp_all add: or_else_def cond_def)

lemma any_in_lower_str:
  "any_in_lower inds (JStr d) = Inr (list_ex (\<lambda>i. sublist i (lower d)) inds)"
  by (induction inds) (simp_all add: or_else_Inr)

lemma nonempty_sublist: "(d \<noteq> [] \<and> sublist (c # cs) d) = sublist (c # cs) d"
  by (cases d) auto

lemma history_source_rules:
  "history_source (JStr d) (JStr l) = Inr (first_match code_rules d l)"
proof -
  define c1 where "c1 = sublist ''Auto-recorded from Claude Desktop'' d"
  define c2 where "c2 = sublist ''Claude Desktop'' d"
  define lc where "lc = (l = ''Claude'')"
  define v where "v = (sublist ''via'' d \<or> sublist ''proxy'' (lower d))"
  define g where "g = sublist ''ChatGPT'' l"
  define m where "m = list_ex (\<lambda>i. sublist i (lower d)) [''mcp'', ''auto-recorded'', ''claude desktop'']"
  define w where "w = list_ex (\<lambda>i. sublist i (lower d))
                        [''web'', ''proxy'', ''browser'', ''captured'', ''via'', ''claude.ai'']"
  define CD where "CD = ''Claude Desktop''"
  define WB where "WB = ''Web Browser''"
  have t2: "(truthy (JStr d) \<and> sublist ''Claude Desktop'' d) = c2"
    unfolding c2_def by (cases d) auto
  have lhs: "history_source (JStr d) (JStr l) =
               (if c1 then Inr CD else if c2 then Inr CD else if lc \<and> v then Inr WB
                else if g then Inr WB
                else if lc then (if m then Inr CD else if w then Inr WB else Inr CD)
                else Inr WB)"
    unfolding history_source_def py_in.simps py_lower.simps any_in_lower_str sum.case
      and_then_Inr or_else_Inr cond_Inr t2 json.inject
    unfolding c1_def c2_def lc_def v_def g_def m_def w_def CD_def WB_def ..
  have rhs: "first_match code_rules d l =
               (if c1 then CD else if c2 then CD else if lc \<and> v then WB
                else if g then WB else if lc \<and> m then CD else if lc \<and> w then WB
                else if lc then CD else WB)"
    unfolding code_rules_def first_match.simps
    unfolding c1_def c2_def lc_def v_def g_def m_def w_def CD_def WB_def by simp
  show ?thesis
    unfolding lhs rhs by simp
qed

text \<open>
  C6, as amended. For a description \<open>d\<close> and a model name \<open>l\<close> that are strings, the
  source shown is the label of the first matching rule of \<open>code_rules\<close>: eight ordered
  rules in which the tests for \<open>Auto-recorded from Claude Desktop\<close>, \<open>Claude Desktop\<close>,
  \<open>via\<close> (rule 3) and \<open>ChatGPT\<close> are case-sensitive, the test for \<open>proxy\<close> and the
  tests of rules 5 and 6 are made on the lowercased description, and the comparisons with
  \<open>Claude\<close> are exact. In particular \<open>Claude\<close> with \<open>captured via proxy\<close> gives Web
  Browser, with \<open>Auto-recorded from Claude Desktop\<close> and with an empty description Claude
  Desktop, and any model name other than \<open>Claude\<close> gives Web Browser unless the
  description contains \<open>Claude Desktop\<close>.
\<close>

theorem history_source_decision_list:
  "history_source (JStr d) (JStr l) = Inr (first_match code_rules d l) \<and>
   history_source (JStr ''captured via proxy'') (JStr ''Claude'') = Inr ''Web Browser'' \<and>
   history_source (JStr ''Auto-recorded from Claude Desktop'') (JStr ''Claude'') = Inr ''Claude Desktop'' \<and>
   history_source (JStr []) (JStr ''Claude'') = Inr ''Claude Desktop'' \<and>
   (l \<noteq> ''Claude'' \<and> \<not> sublist ''Claude Desktop'' d \<longrightarrow>
      history_source (JStr d) (JStr l) = Inr ''Web Browser'')"
proof -
  have e1: "history_source (JStr ''captured via proxy'') (JStr ''Claude'') = Inr ''Web Browser''"
    by code_simp
  have e2: "history_source (JStr ''Auto-recorded from Claude Desktop'') (JStr ''Claude'')
              = Inr ''Claude Desktop''"
    by code_simp
  have e3: "history_source (JStr []) (JStr ''Claude'') = Inr ''Claude Desktop''"
    by code_simp
  have sub: "sublist ''Auto-recorded from Claude Desktop'' d \<Longrightarrow> sublist ''Claude Desktop'' d"
  proof -
    assume "sublist ''Auto-recorded from Claude Desktop'' d"
    moreover have "sublist ''Claude Desktop'' ''Auto-recorded from Claude Desktop''"
      by code_simp
    ultimately show ?thesis by (rule sublist_order.order_trans [rotated])
  qed
  have e4: "history_source (JStr d) (JStr l) = Inr ''Web Browser''"
    if "l \<noteq> ''Claude''" and "\<not> sublist ''Claude Desktop'' d"
    using that sub by (auto simp: history_source_rules code_rules_def)
  show ?thesis
    using e1 e2 e3 e4 history_source_rules by blast
qed

text \<open>A prompt to another model, with a description that names no desktop.\<close>

theorem history_source_decision_list_witness:
  "history_source (JStr ''summarise the report'') (JStr ''Gemini'') = Inr ''Web Browser'' \<and>
   first_match code_rules ''summarise the report'' ''Gemini'' = ''Web Browser''"
proof -
  have h: "''Gemini'' \<noteq> ''Claude'' \<and> \<not> sublist ''Claude Desktop'' ''summarise the report''"
    by code_simp
  have e: "first_match code_rules ''summarise the report'' ''Gemini'' = ''Web Browser''"
    by code_simp
  show ?thesis
    using history_source_decision_list [of "''summarise the report''" "''Gemini''"] h e
    by simp
qed

text \<open>
  Where the code differs from the list read with every test case-insensitive: \<open>VIA mcp\<close>
  for \<open>Claude\<close> is Claude Desktop (rule 3 does not see \<open>VIA\<close>), a lowercase
  \<open>auto-recorded from claude desktop\<close> for \<open>Gemini\<close> is Web Browser (rules 1 and 2
  do not see it), and a description with \<open>Claude Desktop\<close> makes even a \<open>Gemini\<close>
  prompt Claude Desktop.
\<close>

theorem history_source_case_counterexample:
  "history_source (JStr ''VIA mcp'') (JStr ''Claude'') = Inr ''Claude Desktop'' \<and>
   first_match spec_rules ''VIA mcp'' ''Claude'' = ''Web Browser'' \<and>
   history_source (JStr ''auto-recorded from claude desktop'') (JStr ''Gemini'') = Inr ''Web Browser'' \<and>
   first_match spec_rules ''auto-recorded from claude desktop'' ''Gemini'' = ''Claude Desktop'' \<and>
   history_source (JStr ''Notes on Claude Desktop'') (JStr ''Gemini'') = Inr ''Claude Desktop''"
  by code_simp

section \<open>Snapshot encoding and decoding\<close>

text \<open>
  C7. The round trip of the specification's own example: the files \<open>/a.py\<close> with content
  \<open>print(1)\<close> and a newline, and \<open>/b/c.txt\<close> with content \<open>hello\<close>, header \<open>H\<close>,
  footer \<open>F\<close>. The encoder puts a blank line after every content; the decoder removes
  the newlines before a content but not the ones after it, and takes the footer for part of
  the last file. So \<^verbatim>\<open>parse_combined_file\<close> returns \<open>/a.py\<close> with two more newlines
  and \<open>/b/c.txt\<close> with two newlines and the footer appended, not the original mapping.
\<close>

theorem snapshot_round_trip_fails:
  "build_combined_text snapshot_files [''/a.py'', ''/b/c.txt''] ''H'' ''F''
     = ''H\<newline>\<newline>### /a.py\<newline>\<newline>print(1)\<newline>\<newline>\<newline>### /b/c.txt\<newline>\<newline>hello\<newline>\<newline>F'' \<and>
   parse_combined_file
     (sample_env [(''backup.md'', build_combined_text snapshot_files [''/a.py'', ''/b/c.txt''] ''H'' ''F'')] 0)
     ''backup.md''
     = [(''/a.py'', ''print(1)\<newline>\<newline>\<newline>''), (''/b/c.txt'', ''hello\<newline>\<newline>F'')]"
  by code_simp

section \<open>Timestamps\<close>

lemma sublist_single: "sublist [c] s = (c \<in> set s)"
  by (auto simp: sublist_def in_set_conv_decomp)

lemma digit_of_char: "0 \<le> k \<Longrightarrow> k < 10 \<Longrightarrow> digit_of (''0123456789'' ! nat k) = Some k"
proof -
  assume "0 \<le> k" and "k < 10"
  then have "k = 0 \<or> k = 1 \<or> k = 2 \<or> k = 3 \<or> k = 4 \<or> k = 5 \<or> k = 6 \<or> k = 7 \<or> k = 8 \<or> k = 9"
    by arith
  then show ?thesis by (auto simp: digit_of_def)
qed

lemma parse_digits_digits:
  "parse_digits n acc (digits n k @ r) = Some (acc * 10 ^ n + k mod 10 ^ n, r)"
proof (induction n arbitrary: acc)
  case 0
  then show ?case by simp
next
  case (Suc n)
  have m: "k mod (10 ^ n * 10) = 10 ^ n * (k div 10 ^ n mod 10) + k mod 10 ^ n"
    by (rule zmod_zmult2_eq) simp
  show ?case
    using Suc [of "10 * acc + k div 10 ^ n mod 10"] m
    by (simp add: digit_of_char algebra_simps)
qed

lemma parse_digits_text:
  "0 \<le> k \<Longrightarrow> k < 10 ^ n \<Longrightarrow> parse_digits n 0 (digits n k @ r) = Some (k, r)"
  by (simp add: parse_digits_digits)

lemma parse_digits_end:
  "0 \<le> k \<Longrightarrow> k < 10 ^ n \<Longrightarrow> parse_digits n 0 (digits n k) = Some (k, [])"
  using parse_digits_text [of k n "[]"] by simp

lemma iso_fields_text:
  assumes "check_fields (y, m, d, h, mi, s, us)" and "sep = CHR ''T'' \<or> sep = CHR '' ''"
  shows "iso_fields (date_text y m d @ [sep] @ time_text h mi s @ ''.'' @ digits 6 us)
           = Some (y, m, d, h, mi, s, us)"
    and "iso_fields (date_text y m d @ [sep] @ time_text h mi s) = Some (y, m, d, h, mi, s, 0)"
proof -
  have d31: "days_in_month y m \<le> 31"
    using assms(1) by (auto simp: check_fields_def days_in_month_def nth_Cons')
  have n: "0 \<le> y" "0 \<le> m" "0 \<le> d" "0 \<le> h" "0 \<le> mi" "0 \<le> s" "0 \<le> us"
    using assms(1) by (simp_all add: check_fields_def)
  have b: "y < 10 ^ 4" "m < 10 ^ 2" "d < 10 ^ 2" "h < 10 ^ 2" "mi < 10 ^ 2" "s < 10 ^ 2"
          "us < 10 ^ 6"
    using assms(1) d31 by (simp_all add: check_fields_def)
  have f6: "fraction (''.'' @ digits 6 us) = Some us"
    using parse_digits_end [OF n(7) b(7)] by (simp add: fraction_def skip_def)
  have f0: "fraction [] = Some 0"
    by (simp add: fraction_def)
  have sk: "skip ''T '' (sep # r) = Some r" for r
    using assms(2) by (auto simp: skip_def)
  show "iso_fields (date_text y m d @ [sep] @ time_text h mi s @ ''.'' @ digits 6 us)
           = Some (y, m, d, h, mi, s, us)"
    using f6 assms(2)
    by (simp add: iso_fields_def date_text_def time_text_def parse_digits_text [OF n(1) b(1)]
          parse_digits_text [OF n(2) b(2)] parse_digits_text [OF n(3) b(3)] parse_digits_text [OF n(4) b(4)]
          parse_digits_text [OF n(5) b(5)] parse_digits_text [OF n(6) b(6)] sk skip_def
          del: digits.simps parse_digits.simps)
  show "iso_fields (date_text y m d @ [sep] @ time_text h mi s) = Some (y, m, d, h, mi, s, 0)"
    using f0 assms(2)
    by (simp add: iso_fields_def date_text_def time_text_def parse_digits_text [OF n(1) b(1)]
          parse_digits_text [OF n(2) b(2)] parse_digits_text [OF n(3) b(3)] parse_digits_text [OF n(4) b(4)]
          parse_digits_text [OF n(5) b(5)] parse_digits_end [OF n(6) b(6)] sk skip_def
          del: digits.simps parse_digits.simps)
qed

lemma timestamp_try_str:
  "timestamp_try E now (JStr s) =
     (if CHR ''T'' \<in> set s \<or> CHR '' '' \<in> set s then py_fromisoformat E (JStr s)
      else other_formats E now (JStr s))"
  by (cases "CHR ''T'' \<in> set s"; cases "CHR '' '' \<in> set s")
     (simp_all add: timestamp_try_def sublist_single)

lemma parse_timestamp_accepts:
  assumes "CHR ''T'' \<in> set s \<or> CHR '' '' \<in> set s" and "iso_datetime s = Some t"
  shows "parse_timestamp E now (JStr s) = Inr t"
  using assms by (simp add: parse_timestamp_def timestamp_try_str py_fromisoformat_def)

lemma parse_timestamp_four:
  assumes "check_fields (y, m, d, h, mi, s, us)" and "sep = CHR ''T'' \<or> sep = CHR '' ''"
  shows "parse_timestamp E now (JStr (date_text y m d @ [sep] @ time_text h mi s @ ''.'' @ digits 6 us))
           = Inr (datetime_of (y, m, d, h, mi, s, us))"
    and "parse_timestamp E now (JStr (date_text y m d @ [sep] @ time_text h mi s))
           = Inr (datetime_of (y, m, d, h, mi, s, 0))"
proof -
  have c0: "check_fields (y, m, d, h, mi, s, 0)"
    using assms(1) by (simp add: check_fields_def)
  have i1: "iso_datetime (date_text y m d @ [sep] @ time_text h mi s @ ''.'' @ digits 6 us)
              = Some (datetime_of (y, m, d, h, mi, s, us))"
    using iso_fields_text(1) [OF assms] assms(1) by (simp add: iso_datetime_def)
  have i2: "iso_datetime (date_text y m d @ [sep] @ time_text h mi s)
              = Some (datetime_of (y, m, d, h, mi, s, 0))"
    using iso_fields_text(2) [OF assms] c0 by (simp add: iso_datetime_def)
  have m1: "CHR ''T'' \<in> set (date_text y m d @ [sep] @ time_text h mi s @ ''.'' @ digits 6 us)
          \<or> CHR '' '' \<in> set (date_text y m d @ [sep] @ time_text h mi s @ ''.'' @ digits 6 us)"
    using assms(2) by auto
  have m2: "CHR ''T'' \<in> set (date_text y m d @ [sep] @ time_text h mi s)
          \<or> CHR '' '' \<in> set (date_text y m d @ [sep] @ time_text h mi s)"
    using assms(2) by auto
  show "parse_timestamp E now (JStr (date_text y m d @ [sep] @ time_text h mi s @ ''.'' @ digits 6 us))
           = Inr (datetime_of (y, m, d, h, mi, s, us))"
    by (rule parse_timestamp_accepts [OF m1 i1])
  show "parse_timestamp E now (JStr (date_text y m d @ [sep] @ time_text h mi s))
           = Inr (datetime_of (y, m, d, h, mi, s, 0))"
    by (rule parse_timestamp_accepts [OF m2 i2])
qed

lemma parse_timestamp_refused:
  assumes "CHR ''T'' \<in> set s \<or> CHR '' '' \<in> set s" and "iso_datetime s = None"
  shows "parse_timestamp E now (JStr s) =
           (case fromisoformat E s of
              Some t \<Rightarrow> Inr t
            | None \<Rightarrow>
                if list_all (stdout_encodes E) (error_text E ValueError (JStr s)) then Inr now
                else Inl UnicodeEncodeError)"
  using assms
  by (cases "fromisoformat E s")
     (simp_all add: parse_timestamp_def timestamp_try_str py_fromisoformat_def handled_def
        py_print_def)

lemma parse_timestamp_other:
  assumes "CHR ''T'' \<notin> set s" and "CHR '' '' \<notin> set s"
  shows "parse_timestamp E now (JStr s) =
           (case strptime E s ''%Y-%m-%d %H:%M:%S'' of
              Some t \<Rightarrow> Inr t
            | None \<Rightarrow>
           (case strptime E s ''%Y-%m-%d %H:%M:%S.%f'' of
              Some t \<Rightarrow> Inr t
            | None \<Rightarrow>
           (case strptime E s ''%Y-%m-%dT%H:%M:%S'' of
              Some t \<Rightarrow> Inr t
            | None \<Rightarrow>
           (case strptime E s ''%Y-%m-%dT%H:%M:%S.%f'' of
              Some t \<Rightarrow> Inr t
            | None \<Rightarrow>
                if list_all (stdout_encodes E) (warning_text E (JStr s))
                   \<or> list_all (stdout_encodes E) (error_text E UnicodeEncodeError (JStr s))
                then Inr now else Inl UnicodeEncodeError))))"
proof -
  define f1 where "f1 = strptime E s ''%Y-%m-%d %H:%M:%S''"
  define f2 where "f2 = strptime E s ''%Y-%m-%d %H:%M:%S.%f''"
  define f3 where "f3 = strptime E s ''%Y-%m-%dT%H:%M:%S''"
  define f4 where "f4 = strptime E s ''%Y-%m-%dT%H:%M:%S.%f''"
  define w where "w = list_all (stdout_encodes E) (warning_text E (JStr s))"
  define x where "x = list_all (stdout_encodes E) (error_text E UnicodeEncodeError (JStr s))"
  have l: "strptime_loop E (JStr s) formats =
             Inr (case f1 of Some t \<Rightarrow> Some t | None \<Rightarrow>
                 (case f2 of Some t \<Rightarrow> Some t | None \<Rightarrow>
                 (case f3 of Some t \<Rightarrow> Some t | None \<Rightarrow> f4)))"
    unfolding formats_def f1_def f2_def f3_def f4_def
    by (simp split: option.splits)
  have o: "other_formats E now (JStr s) =
             (case f1 of Some t \<Rightarrow> Inr t | None \<Rightarrow>
             (case f2 of Some t \<Rightarrow> Inr t | None \<Rightarrow>
             (case f3 of Some t \<Rightarrow> Inr t | None \<Rightarrow>
             (case f4 of Some t \<Rightarrow> Inr t | None \<Rightarrow>
                if w then Inr now else Inl UnicodeEncodeError))))"
    unfolding other_formats_def l w_def py_print_def
    by (cases f1; cases f2; cases f3; cases f4) simp_all
  have p: "parse_timestamp E now (JStr s) =
             (case f1 of Some t \<Rightarrow> Inr t | None \<Rightarrow>
             (case f2 of Some t \<Rightarrow> Inr t | None \<Rightarrow>
             (case f3 of Some t \<Rightarrow> Inr t | None \<Rightarrow>
             (case f4 of Some t \<Rightarrow> Inr t | None \<Rightarrow>
                if w \<or> x then Inr now else Inl UnicodeEncodeError))))"
    using assms unfolding parse_timestamp_def timestamp_try_str o x_def py_print_def
    by (cases f1; cases f2; cases f3; cases f4; cases w)
       (simp_all add: handled_def)
  show ?thesis
    using p unfolding f1_def f2_def f3_def f4_def w_def x_def .
qed

lemma timestamp_try_other:
  assumes "\<forall>s. v \<noteq> JStr s"
  shows "timestamp_try E now v = Inl TypeError"
proof (cases v)
  case (JStr s)
  then show ?thesis using assms by simp
next
  case JNull
  then show ?thesis by (simp add: timestamp_try_def)
next
  case (JInt i)
  then show ?thesis by (simp add: timestamp_try_def)
next
  case (JList xs)
  then show ?thesis
    by (cases "JStr ''T'' \<in> set xs"; cases "JStr '' '' \<in> set xs")
       (simp_all add: timestamp_try_def py_fromisoformat_def other_formats_def formats_def)
next
  case (JDict d)
  then show ?thesis
    by (cases "''T'' \<in> set (map fst d)"; cases "'' '' \<in> set (map fst d)")
       (simp_all add: timestamp_try_def py_fromisoformat_def other_formats_def formats_def)
qed

lemma parse_timestamp_not_str:
  assumes "\<forall>s. v \<noteq> JStr s"
  shows "parse_timestamp E now v =
           (if list_all (stdout_encodes E) (error_text E TypeError v) then Inr now
            else Inl UnicodeEncodeError)"
  by (simp add: parse_timestamp_def timestamp_try_other [OF assms] handled_def py_print_def)

lemma timestamp_try_handled:
  assumes "timestamp_try E now v = Inl e"
  shows "handled e"
proof (cases "\<exists>s. v = JStr s")
  case False
  then show ?thesis using assms timestamp_try_other [of v E now] by (simp add: handled_def)
next
  case True
  then obtain s where v: "v = JStr s" by blast
  show ?thesis
    using assms unfolding v timestamp_try_str py_fromisoformat_def other_formats_def py_print_def
    by (auto simp: handled_def formats_def split: if_splits option.splits sum.splits)
qed

lemma parse_timestamp_outcome:
  "(\<exists>t. parse_timestamp E now v = Inr t) \<or> parse_timestamp E now v = Inl UnicodeEncodeError"
proof (cases "timestamp_try E now v")
  case (Inr t)
  then show ?thesis by (simp add: parse_timestamp_def)
next
  case (Inl e)
  then show ?thesis
    using timestamp_try_handled [OF Inl] by (simp add: parse_timestamp_def py_print_def)
qed

lemma parse_timestamp_printable:
  assumes "\<forall>c. stdout_encodes E c"
  shows "\<exists>t. parse_timestamp E now v = Inr t"
proof (cases "timestamp_try E now v")
  case (Inr t)
  then show ?thesis by (simp add: parse_timestamp_def)
next
  case (Inl e)
  have "list_all (stdout_encodes E) (error_text E e v)"
    using assms by (simp add: list_all_iff)
  then show ?thesis
    using Inl timestamp_try_handled [OF Inl] by (simp add: parse_timestamp_def py_print_def)
qed

lemma from_dict_printable:
  assumes "\<forall>c. stdout_encodes E c"
  shows "\<exists>r. from_dict E uuid now (JDict d) = Inr r"
proof -
  obtain t where "parse_timestamp E now (get d ''timestamp'' (JStr [])) = Inr t"
    using parse_timestamp_printable [OF assms] by blast
  then show ?thesis by (simp add: from_dict_def)
qed

text \<open>
  C8. The timestamp parsing of \<^verbatim>\<open>from_dict\<close> accepts the four encodings, in whatever
  surroundings: for fields that name a datetime, the text with a \<open>T\<close> or a space
  between date and time, with or without six digits of fractional seconds, is parsed to
  that datetime. Of the other strings, one with a \<open>T\<close> or a space is left to
  \<open>fromisoformat\<close>, and one with neither goes through the four \<open>strptime\<close> formats
  in the order of the list; a value that is not a string raises \<open>TypeError\<close>. What
  is refused falls back to the clock, but only after a message with the value in it has
  been printed: the parsing either returns a time or is left by \<open>UnicodeEncodeError\<close>,
  and it returns a time for every value when the standard output encodes every character.
  The claim that it never raises fails: with an output that encodes ASCII only, the
  timestamp \<open>fevrier\<close> (a date in words, one letter of which has code 233) takes
  \<^verbatim>\<open>from_dict\<close> out through the \<^verbatim>\<open>print\<close> of the handler, and
  \<^verbatim>\<open>load\<close> then gives up the whole of \<^verbatim>\<open>prompt_database.json\<close>, the entries
  with a good timestamp included.
\<close>

theorem timestamp_fallback_can_raise:
  "(check_fields (y, m, d, h, mi, s, us) \<longrightarrow>
      parse_timestamp E now (JStr (date_text y m d @ ''T'' @ time_text h mi s @ ''.'' @ digits 6 us))
        = Inr (datetime_of (y, m, d, h, mi, s, us)) \<and>
      parse_timestamp E now (JStr (date_text y m d @ '' '' @ time_text h mi s @ ''.'' @ digits 6 us))
        = Inr (datetime_of (y, m, d, h, mi, s, us)) \<and>
      parse_timestamp E now (JStr (date_text y m d @ ''T'' @ time_text h mi s))
        = Inr (datetime_of (y, m, d, h, mi, s, 0)) \<and>
      parse_timestamp E now (JStr (date_text y m d @ '' '' @ time_text h mi s))
        = Inr (datetime_of (y, m, d, h, mi, s, 0))) \<and>
   ((CHR ''T'' \<in> set v \<or> CHR '' '' \<in> set v) \<and> iso_datetime v = None \<longrightarrow>
      parse_timestamp E now (JStr v) =
        (case fromisoformat E v of
           Some t \<Rightarrow> Inr t
         | None \<Rightarrow>
             if list_all (stdout_encodes E) (error_text E ValueError (JStr v)) then Inr now
             else Inl UnicodeEncodeError)) \<and>
   (CHR ''T'' \<notin> set v \<and> CHR '' '' \<notin> set v \<longrightarrow>
      parse_timestamp E now (JStr v) =
        (case strptime E v ''%Y-%m-%d %H:%M:%S'' of
           Some t \<Rightarrow> Inr t
         | None \<Rightarrow>
        (case strptime E v ''%Y-%m-%d %H:%M:%S.%f'' of
           Some t \<Rightarrow> Inr t
         | None \<Rightarrow>
        (case strptime E v ''%Y-%m-%dT%H:%M:%S'' of
           Some t \<Rightarrow> Inr t
         | None \<Rightarrow>
        (case strptime E v ''%Y-%m-%dT%H:%M:%S.%f'' of
           Some t \<Rightarrow> Inr t
         | None \<Rightarrow>
             if list_all (stdout_encodes E) (warning_text E (JStr v))
                \<or> list_all (stdout_encodes E) (error_text E UnicodeEncodeError (JStr v))
             then Inr now else Inl UnicodeEncodeError))))) \<and>
   ((\<forall>str. x \<noteq> JStr str) \<longrightarrow>
      parse_timestamp E now x =
        (if list_all (stdout_encodes E) (error_text E TypeError x) then Inr now
         else Inl UnicodeEncodeError)) \<and>
   ((\<exists>t. parse_timestamp E now x = Inr t) \<or> parse_timestamp E now x = Inl UnicodeEncodeError) \<and>
   ((\<forall>c. stdout_encodes E c) \<longrightarrow>
      (\<exists>t. parse_timestamp E now x = Inr t) \<and> (\<exists>r. from_dict E uuid now (JDict dict) = Inr r)) \<and>
   from_dict ascii_stdout ''u'' 99 (JDict [(''timestamp'', JStr fevrier)]) = Inl UnicodeEncodeError \<and>
   load ascii_stdout sample_uuid4 99 Missing
     (stored_db [JDict wire_prompt, JDict [(''timestamp'', JStr fevrier)]])
     = (stored_db [JDict wire_prompt, JDict [(''timestamp'', JStr fevrier)]], False) \<and>
   map timestamp (records (fst (load (sample_env [] 0) sample_uuid4 99 Missing
     (stored_db [JDict wire_prompt, JDict [(''timestamp'', JStr fevrier)]]))))
     = [1746832544000000, 99]"
proof -
  have four: "check_fields (y, m, d, h, mi, s, us) \<longrightarrow>
      parse_timestamp E now (JStr (date_text y m d @ ''T'' @ time_text h mi s @ ''.'' @ digits 6 us))
        = Inr (datetime_of (y, m, d, h, mi, s, us)) \<and>
      parse_timestamp E now (JStr (date_text y m d @ '' '' @ time_text h mi s @ ''.'' @ digits 6 us))
        = Inr (datetime_of (y, m, d, h, mi, s, us)) \<and>
      parse_timestamp E now (JStr (date_text y m d @ ''T'' @ time_text h mi s))
        = Inr (datetime_of (y, m, d, h, mi, s, 0)) \<and>
      parse_timestamp E now (JStr (date_text y m d @ '' '' @ time_text h mi s))
        = Inr (datetime_of (y, m, d, h, mi, s, 0))"
    using parse_timestamp_four [where sep = "CHR ''T''" and E = E and now = now]
          parse_timestamp_four [where sep = "CHR '' ''" and E = E and now = now]
    by simp
  have refused: "(CHR ''T'' \<in> set v \<or> CHR '' '' \<in> set v) \<and> iso_datetime v = None \<longrightarrow>
      parse_timestamp E now (JStr v) =
        (case fromisoformat E v of
           Some t \<Rightarrow> Inr t
         | None \<Rightarrow>
             if list_all (stdout_encodes E) (error_text E ValueError (JStr v)) then Inr now
             else Inl UnicodeEncodeError)"
    using parse_timestamp_refused [of v E now] by blast
  have other: "CHR ''T'' \<notin> set v \<and> CHR '' '' \<notin> set v \<longrightarrow>
      parse_timestamp E now (JStr v) =
        (case strptime E v ''%Y-%m-%d %H:%M:%S'' of
           Some t \<Rightarrow> Inr t
         | None \<Rightarrow>
        (case strptime E v ''%Y-%m-%d %H:%M:%S.%f'' of
           Some t \<Rightarrow> Inr t
         | None \<Rightarrow>
        (case strptime E v ''%Y-%m-%dT%H:%M:%S'' of
           Some t \<Rightarrow> Inr t
         | None \<Rightarrow>
        (case strptime E v ''%Y-%m-%dT%H:%M:%S.%f'' of
           Some t \<Rightarrow> Inr t
         | None \<Rightarrow>
             if list_all (stdout_encodes E) (warning_text E (JStr v))
                \<or> list_all (stdout_encodes E) (error_text E UnicodeEncodeError (JStr v))
             then Inr now else Inl UnicodeEncodeError))))"
    using parse_timestamp_other [of v E now] by blast
  have not_str: "(\<forall>str. x \<noteq> JStr str) \<longrightarrow>
      parse_timestamp E now x =
        (if list_all (stdout_encodes E) (error_text E TypeError x) then Inr now
         else Inl UnicodeEncodeError)"
    using parse_timestamp_not_str [of x E now] by blast
  have outcome: "(\<exists>t. parse_timestamp E now x = Inr t) \<or>
      parse_timestamp E now x = Inl UnicodeEncodeError"
    by (rule parse_timestamp_outcome)
  have printable: "(\<forall>c. stdout_encodes E c) \<longrightarrow>
      (\<exists>t. parse_timestamp E now x = Inr t) \<and> (\<exists>r. from_dict E uuid now (JDict dict) = Inr r)"
    using parse_timestamp_printable [of E now x] from_dict_printable [of E uuid now dict] by blast
  have raised: "from_dict ascii_stdout ''u'' 99 (JDict [(''timestamp'', JStr fevrier)])
      = Inl UnicodeEncodeError"
    by code_simp
  have e: "from_dict_all ascii_stdout sample_uuid4 99 0
             [JDict wire_prompt, JDict [(''timestamp'', JStr fevrier)]] = Inl UnicodeEncodeError"
    by code_simp
  have lost: "load ascii_stdout sample_uuid4 99 Missing
     (stored_db [JDict wire_prompt, JDict [(''timestamp'', JStr fevrier)]])
     = (stored_db [JDict wire_prompt, JDict [(''timestamp'', JStr fevrier)]], False)"
    by (simp add: load_def load_standard_def stored_db_def e del: from_dict_all.simps)
  have kept: "map timestamp (records (fst (load (sample_env [] 0) sample_uuid4 99 Missing
     (stored_db [JDict wire_prompt, JDict [(''timestamp'', JStr fevrier)]]))))
     = [1746832544000000, 99]"
    by code_simp
  show ?thesis
    using four refused other not_str outcome printable raised lost kept by blast
qed

theorem timestamp_fallback_can_raise_witness:
  "parse_timestamp ascii_stdout 99 (JStr ''2025-05-09T23:15:44.850257'') = Inr 1746832544850257 \<and>
   parse_timestamp ascii_stdout 99 (JStr ''2025-05-09 23:15:44.850257'') = Inr 1746832544850257 \<and>
   parse_timestamp ascii_stdout 99 (JStr ''2025-05-09T23:15:44'') = Inr 1746832544000000 \<and>
   parse_timestamp ascii_stdout 99 (JStr ''2025-05-09 23:15:44'') = Inr 1746832544000000 \<and>
   parse_timestamp ascii_stdout 99 (JStr ''2025-02-30T23:15:44'') = Inr 99 \<and>
   parse_timestamp ascii_stdout 99 (JStr fevrier) = Inl UnicodeEncodeError \<and>
   parse_timestamp ascii_stdout 99 (JStr ''soon'') = Inr 99 \<and>
   parse_timestamp ascii_stdout 99 (JStr [CHR 0xE9]) = Inl UnicodeEncodeError \<and>
   parse_timestamp ascii_stdout 99 JNull = Inr 99 \<and>
   (\<exists>t. parse_timestamp (sample_env [] 0) 99 (JStr fevrier) = Inr t)"
proof -
  have c: "check_fields (2025, 5, 9, 23, 15, 44, 850257)"
    by code_simp
  have t1: "date_text 2025 5 9 @ ''T'' @ time_text 23 15 44 @ ''.'' @ digits 6 850257
              = ''2025-05-09T23:15:44.850257''"
    by code_simp
  have t2: "date_text 2025 5 9 @ '' '' @ time_text 23 15 44 @ ''.'' @ digits 6 850257
              = ''2025-05-09 23:15:44.850257''"
    by code_simp
  have t3: "date_text 2025 5 9 @ ''T'' @ time_text 23 15 44 = ''2025-05-09T23:15:44''"
    by code_simp
  have t4: "date_text 2025 5 9 @ '' '' @ time_text 23 15 44 = ''2025-05-09 23:15:44''"
    by code_simp
  have d1: "datetime_of (2025, 5, 9, 23, 15, 44, 850257) = 1746832544850257"
    by code_simp
  have d2: "datetime_of (2025, 5, 9, 23, 15, 44, 0) = 1746832544000000"
    by code_simp
  have r1: "(CHR ''T'' \<in> set ''2025-02-30T23:15:44'' \<or> CHR '' '' \<in> set ''2025-02-30T23:15:44'')
            \<and> iso_datetime ''2025-02-30T23:15:44'' = None"
    by code_simp
  have r2: "fromisoformat ascii_stdout ''2025-02-30T23:15:44'' = None"
    by code_simp
  have r3: "list_all (stdout_encodes ascii_stdout)
              (error_text ascii_stdout ValueError (JStr ''2025-02-30T23:15:44''))"
    by code_simp
  have f1: "(CHR ''T'' \<in> set fevrier \<or> CHR '' '' \<in> set fevrier) \<and> iso_datetime fevrier = None"
    by code_simp
  have f2: "fromisoformat ascii_stdout fevrier = None"
    by code_simp
  have f3: "\<not> list_all (stdout_encodes ascii_stdout) (error_text ascii_stdout ValueError (JStr fevrier))"
    by code_simp
  have o1: "CHR ''T'' \<notin> set ''soon'' \<and> CHR '' '' \<notin> set ''soon''"
    by code_simp
  have o2: "strptime ascii_stdout ''soon'' ''%Y-%m-%d %H:%M:%S'' = None"
           "strptime ascii_stdout ''soon'' ''%Y-%m-%d %H:%M:%S.%f'' = None"
           "strptime ascii_stdout ''soon'' ''%Y-%m-%dT%H:%M:%S'' = None"
           "strptime ascii_stdout ''soon'' ''%Y-%m-%dT%H:%M:%S.%f'' = None"
    by code_simp+
  have o3: "list_all (stdout_encodes ascii_stdout) (warning_text ascii_stdout (JStr ''soon''))"
    by code_simp
  have p1: "CHR ''T'' \<notin> set [CHR 0xE9] \<and> CHR '' '' \<notin> set [CHR 0xE9]"
    by code_simp
  have p2: "strptime ascii_stdout [CHR 0xE9] ''%Y-%m-%d %H:%M:%S'' = None"
           "strptime ascii_stdout [CHR 0xE9] ''%Y-%m-%d %H:%M:%S.%f'' = None"
           "strptime ascii_stdout [CHR 0xE9] ''%Y-%m-%dT%H:%M:%S'' = None"
           "strptime ascii_stdout [CHR 0xE9] ''%Y-%m-%dT%H:%M:%S.%f'' = None"
    by code_simp+
  have p3: "\<not> list_all (stdout_encodes ascii_stdout) (warning_text ascii_stdout (JStr [CHR 0xE9]))"
           "\<not> list_all (stdout_encodes ascii_stdout)
                (error_text ascii_stdout UnicodeEncodeError (JStr [CHR 0xE9]))"
    by code_simp+
  have n1: "list_all (stdout_encodes ascii_stdout) (error_text ascii_stdout TypeError JNull)"
    by code_simp
  have a: "\<forall>c. stdout_encodes (sample_env [] 0) c"
    by (simp add: sample_env_def)
  note w1 = timestamp_fallback_can_raise [where E = ascii_stdout and now = 99 and y = 2025
      and m = 5 and d = 9 and h = 23 and mi = 15 and s = 44 and us = 850257
      and v = "''2025-02-30T23:15:44''" and x = JNull]
  note w2 = timestamp_fallback_can_raise [where E = ascii_stdout and now = 99 and v = fevrier]
  note w3 = timestamp_fallback_can_raise [where E = ascii_stdout and now = 99 and v = "''soon''"]
  note w4 = timestamp_fallback_can_raise [where E = ascii_stdout and now = 99 and v = "[CHR 0xE9]"]
  note w5 = timestamp_fallback_can_raise [where E = "sample_env [] 0" and now = 99
      and x = "JStr fevrier"]
  have g1: "parse_timestamp ascii_stdout 99 (JStr ''2025-05-09T23:15:44.850257'') = Inr 1746832544850257"
           "parse_timestamp ascii_stdout 99 (JStr ''2025-05-09 23:15:44.850257'') = Inr 1746832544850257"
           "parse_timestamp ascii_stdout 99 (JStr ''2025-05-09T23:15:44'') = Inr 1746832544000000"
           "parse_timestamp ascii_stdout 99 (JStr ''2025-05-09 23:15:44'') = Inr 1746832544000000"
    using w1 c unfolding t1 t2 t3 t4 d1 d2 by blast+
  have g2: "parse_timestamp ascii_stdout 99 (JStr ''2025-02-30T23:15:44'') = Inr 99"
    using w1 r1 r2 r3 by simp
  have g3: "parse_timestamp ascii_stdout 99 (JStr fevrier) = Inl UnicodeEncodeError"
    using w2 f1 f2 f3 by simp
  have g4: "parse_timestamp ascii_stdout 99 (JStr ''soon'') = Inr 99"
    using w3 o1 o2 o3 by simp
  have g5: "parse_timestamp ascii_stdout 99 (JStr [CHR 0xE9]) = Inl UnicodeEncodeError"
    using w4 p1 p2 p3 by simp
  have g6: "parse_timestamp ascii_stdout 99 JNull = Inr 99"
    using w1 n1 by simp
  have g7: "\<exists>t. parse_timestamp (sample_env [] 0) 99 (JStr fevrier) = Inr t"
    using w5 a by blast
  show ?thesis
    using g1 g2 g3 g4 g5 g6 g7 by blast
qed

section \<open>The wire format and the record adapters\<close>

text \<open>
  C9. \<^verbatim>\<open>_add_to_json_db\<close> writes exactly the keys \<open>id\<close>, \<open>timestamp\<close>,
  \<open>prompt_text\<close>, \<open>description\<close>, \<open>model\<close>, \<open>files\<close>, \<open>source\<close>. The adapters
  of \<^verbatim>\<open>combiner2.py\<close> do not keep to that shape: \<^verbatim>\<open>to_dict\<close> writes
  \<open>llm_used\<close> and \<open>associated_files\<close> where \<^verbatim>\<open>from_dict\<close> reads \<open>model\<close>
  and \<open>files\<close>, and \<^verbatim>\<open>from_dict\<close> never reads \<open>source\<close>. An object with source
  \<open>Web Browser\<close> loads as a record with source \<open>Unknown\<close>, and that record, written
  with \<^verbatim>\<open>to_dict\<close> and read back, has lost its model name and its files.
\<close>

theorem wire_shape_not_kept:
  "map fst (to_dict E r) =
     [''id'', ''timestamp'', ''prompt_text'', ''llm_used'', ''description'', ''associated_files'',
      ''file_changes'', ''retroactive_notes''] \<and>
   map fst (new_prompt E prompt_id ts ptext llm_name descr files src) =
     [''id'', ''timestamp'', ''prompt_text'', ''description'', ''model'', ''files'', ''source''] \<and>
   add_to_json_db E Missing prompt_id ts ptext llm_name descr files src =
     (Content (JList [JDict (new_prompt E prompt_id ts ptext llm_name descr files src)]), True) \<and>
   get wire_prompt ''source'' JNull = JStr ''Web Browser'' \<and>
   from_dict (sample_env [] 0) ''fresh'' 99 (JDict wire_prompt) = Inr wire_record \<and>
   source wire_record = JStr ''Unknown'' \<and>
   from_dict (sample_env [] 0) ''fresh'' 99 (JDict (to_dict (sample_env [] 0) wire_record))
     = Inr (wire_record\<lparr>llm_used := JStr ''Unknown'', associated_files := JList []\<rparr>)"
proof -
  have k1: "map fst (to_dict E r) =
     [''id'', ''timestamp'', ''prompt_text'', ''llm_used'', ''description'', ''associated_files'',
      ''file_changes'', ''retroactive_notes'']"
    by (simp add: to_dict_def)
  have k2: "map fst (new_prompt E prompt_id ts ptext llm_name descr files src) =
     [''id'', ''timestamp'', ''prompt_text'', ''description'', ''model'', ''files'', ''source'']"
    by (simp add: new_prompt_def)
  have k3: "add_to_json_db E Missing prompt_id ts ptext llm_name descr files src =
     (Content (JList [JDict (new_prompt E prompt_id ts ptext llm_name descr files src)]), True)"
    by (simp add: add_to_json_db_def)
  have s1: "get wire_prompt ''source'' JNull = JStr ''Web Browser''"
    by code_simp
  have s2: "from_dict (sample_env [] 0) ''fresh'' 99 (JDict wire_prompt) = Inr wire_record"
    by code_simp
  have s3: "source wire_record = JStr ''Unknown''"
    by (simp add: wire_record_def)
  have s4: "from_dict (sample_env [] 0) ''fresh'' 99 (JDict (to_dict (sample_env [] 0) wire_record))
     = Inr (wire_record\<lparr>llm_used := JStr ''Unknown'', associated_files := JList []\<rparr>)"
    by code_simp
  show ?thesis
    using k1 k2 k3 s1 s2 s3 s4 by blast
qed

section \<open>Recording a prompt moves the focus of one object\<close>

















end
